theory Spec2Isabelle
  imports Main
begin

section \<open>Text, bytes and the Python string operations the controller uses\<close>

text \<open>
  A Python \<open>str\<close> is a list of Unicode code points (\<open>pystr\<close>); what travels over the
  serial line is a list of bytes (\<open>string\<close>, whose characters are 8-bit).  The program's
  non-ASCII literals are written out by code point.  Encoding never fails in this model:
  every text is taken to be encodable, and the observer stream accepts every line.
\<close>

type_synonym pystr = "nat list"

text \<open>The exceptions that the model lets the program raise.\<close>

datatype error =
  TypeError | AttributeError | IndexError | KeyboardInterrupt | ValueError | OSError
  | SerialException

definition u :: "string \<Rightarrow> pystr" where
  "u cs = map of_char cs"

text \<open>\<open>str.isspace\<close> of CPython, which \<open>str.strip()\<close> and the pattern \<open>\s\<close> both use.\<close>

definition py_isspace :: "nat \<Rightarrow> bool" where
  "py_isspace c \<longleftrightarrow>
     (9 \<le> c \<and> c \<le> 13) \<or> (28 \<le> c \<and> c \<le> 32) \<or> c = 0x85 \<or> c = 0xA0 \<or> c = 0x1680 \<or>
     (0x2000 \<le> c \<and> c \<le> 0x200A) \<or> c = 0x2028 \<or> c = 0x2029 \<or> c = 0x202F \<or>
     c = 0x205F \<or> c = 0x3000"

definition py_strip :: "pystr \<Rightarrow> pystr" where
  "py_strip s = rev (dropWhile py_isspace (rev (dropWhile py_isspace s)))"

definition starts_with :: "pystr \<Rightarrow> pystr \<Rightarrow> bool" where
  "starts_with needle s \<longleftrightarrow> take (length needle) s = needle"

text \<open>\<open>needle in s\<close> on strings: \<open>needle\<close> occurs in \<open>s\<close> as a contiguous substring.\<close>

fun py_in :: "pystr \<Rightarrow> pystr \<Rightarrow> bool" where
  "py_in needle [] = (needle = [])"
| "py_in needle (c # cs) = (starts_with needle (c # cs) \<or> py_in needle cs)"

text \<open>
  The pattern \<open>\d\<close> matches every Unicode decimal digit, and \<open>int()\<close> reads every one
  of them with its value.  In the Unicode database of CPython 3.11 (version 14.0) these are
  66 runs of ten consecutive code points, each run holding the digits zero to nine in order;
  \<open>digit_zeros\<close> lists the zero of each run.
\<close>

definition digit_zeros :: "nat list" where
  "digit_zeros =
     [0x30, 0x660, 0x6F0, 0x7C0, 0x966, 0x9E6, 0xA66, 0xAE6, 0xB66, 0xBE6, 0xC66, 0xCE6,
      0xD66, 0xDE6, 0xE50, 0xED0, 0xF20, 0x1040, 0x1090, 0x17E0, 0x1810, 0x1946, 0x19D0,
      0x1A80, 0x1A90, 0x1B50, 0x1BB0, 0x1C40, 0x1C50, 0xA620, 0xA8D0, 0xA900, 0xA9D0,
      0xA9F0, 0xAA50, 0xABF0, 0xFF10, 0x104A0, 0x10D30, 0x11066, 0x110F0, 0x11136,
      0x111D0, 0x112F0, 0x11450, 0x114D0, 0x11650, 0x116C0, 0x11730, 0x118E0, 0x11950,
      0x11C50, 0x11D50, 0x11DA0, 0x16A60, 0x16AC0, 0x16B50, 0x1D7CE, 0x1D7D8, 0x1D7E2,
      0x1D7EC, 0x1D7F6, 0x1E140, 0x1E2F0, 0x1E950, 0x1FBF0]"

definition py_decimal :: "nat \<Rightarrow> nat option" where
  "py_decimal c =
     (case filter (\<lambda>z. z \<le> c \<and> c \<le> z + 9) digit_zeros of
        [] \<Rightarrow> None
      | z # zs \<Rightarrow> Some (c - z))"

definition py_isdigit :: "nat \<Rightarrow> bool" where
  "py_isdigit c \<longleftrightarrow> py_decimal c \<noteq> None"

definition digits_value :: "pystr \<Rightarrow> nat" where
  "digits_value ds =
     foldl (\<lambda>a d. 10 * a + (case py_decimal d of None \<Rightarrow> 0 | Some v \<Rightarrow> v)) 0 ds"

text \<open>
  \<open>int()\<close> of a string of digits: CPython 3.11 refuses more than 4300 digits with
  \<open>ValueError\<close>, leading zeros counted.
\<close>

definition py_int :: "pystr \<Rightarrow> error + nat" where
  "py_int ds = (if 4300 < length ds then Inl ValueError else Inr (digits_value ds))"

function py_str_nat :: "nat \<Rightarrow> pystr" where
  "py_str_nat n = (if n < 10 then [48 + n] else py_str_nat (n div 10) @ [48 + n mod 10])"
  by pat_completeness auto
termination
  by (relation "measure (\<lambda>n. n)") auto

subsection \<open>\<open>bytes.decode('utf-8', errors='ignore')\<close>\<close>

definition is_cont :: "nat \<Rightarrow> bool" where
  "is_cont b \<longleftrightarrow> 0x80 \<le> b \<and> b \<le> 0xBF"

definition second3_ok :: "nat \<Rightarrow> nat \<Rightarrow> bool" where
  "second3_ok b c \<longleftrightarrow>
     (if b = 0xE0 then 0xA0 \<le> c \<and> c \<le> 0xBF
      else if b = 0xED then 0x80 \<le> c \<and> c \<le> 0x9F
      else is_cont c)"

definition second4_ok :: "nat \<Rightarrow> nat \<Rightarrow> bool" where
  "second4_ok b c \<longleftrightarrow>
     (if b = 0xF0 then 0x90 \<le> c \<and> c \<le> 0xBF
      else if b = 0xF4 then 0x80 \<le> c \<and> c \<le> 0x8F
      else is_cont c)"

text \<open>
  The decoder drops what it cannot decode: a byte that cannot start a sequence is skipped
  alone, a sequence broken by a wrong continuation byte is skipped up to that byte, and a
  sequence cut off by the end of the data is dropped with the rest.
\<close>

function utf8_ignore :: "nat list \<Rightarrow> pystr" where
  "utf8_ignore [] = []"
| "utf8_ignore (b # bs) =
     (if b < 0x80 then b # utf8_ignore bs
      else if b < 0xC2 then utf8_ignore bs
      else if b < 0xE0 then
        (case bs of
           [] \<Rightarrow> []
         | c # cs \<Rightarrow>
             if is_cont c then ((b - 0xC0) * 64 + (c - 0x80)) # utf8_ignore cs
             else utf8_ignore bs)
      else if b < 0xF0 then
        (case bs of
           [] \<Rightarrow> []
         | c # cs \<Rightarrow>
             if \<not> second3_ok b c then utf8_ignore bs
             else (case cs of
                     [] \<Rightarrow> []
                   | d # ds \<Rightarrow>
                       if is_cont d
                       then ((b - 0xE0) * 4096 + (c - 0x80) * 64 + (d - 0x80)) # utf8_ignore ds
                       else utf8_ignore cs))
      else if b < 0xF5 then
        (case bs of
           [] \<Rightarrow> []
         | c # cs \<Rightarrow>
             if \<not> second4_ok b c then utf8_ignore bs
             else (case cs of
                     [] \<Rightarrow> []
                   | d # ds \<Rightarrow>
                       if \<not> is_cont d then utf8_ignore cs
                       else (case ds of
                               [] \<Rightarrow> []
                             | e # es \<Rightarrow>
                                 if is_cont e
                                 then ((b - 0xF0) * 262144 + (c - 0x80) * 4096
                                         + (d - 0x80) * 64 + (e - 0x80)) # utf8_ignore es
                                 else utf8_ignore ds)))
      else utf8_ignore bs)"
  by pat_completeness auto
termination
  by (relation "measure length") auto

definition decode :: "string \<Rightarrow> pystr" where
  "decode bs = utf8_ignore (map of_char bs)"

section \<open>The session, its channel and its environment\<close>

text \<open>
  What the program does not decide is part of the state as a script.  During each
  \<open>time.sleep\<close> the next tick happens: bytes (possibly none) arrive on the serial line, or
  the operator interrupts.  An exhausted script means a silent line.  The tick \<open>Dead\<close>
  says that the port has failed (the device is gone): it stays at the head of the script,
  nothing arrives any more, and every write to the port raises \<open>SerialException\<close>; the
  failure shows at the next write, reading what is already buffered is not given one.  Each \<open>datetime.now()\<close>
  takes the next reading of the clock, given by the three renderings the program asks of it.
  The log directory is a flat store of named text files in enumeration order, with the
  modification times the file system reports when the directory is listed.  An interrupt is
  delivered during a sleep only, where the program spends its time.
\<close>

datatype tick = Arrive string | Interrupt | Dead

record serial =
  in_buf :: string
  written :: "pystr list"

record stamp =
  compact :: pystr
  full :: pystr
  hms :: pystr

record controller =
  port :: pystr
  baudrate :: nat
  ser :: "serial option"
  call_active :: "bool option"
  files :: "(pystr \<times> pystr) list"
  out :: "pystr list"
  ticks :: "tick list"
  sleeps :: "nat list"
  clock :: "nat \<Rightarrow> stamp"
  clock_reads :: nat
  getmtime :: "pystr \<Rightarrow> int"

type_synonym 'a result = "(error + 'a) \<times> controller"

definition py_print :: "pystr \<Rightarrow> controller \<Rightarrow> controller" where
  "py_print line s = s\<lparr>out := out s @ [line]\<rparr>"

definition now :: "controller \<Rightarrow> stamp \<times> controller" where
  "now s = (clock s (clock_reads s), s\<lparr>clock_reads := clock_reads s + 1\<rparr>)"

fun next_tick :: "tick list \<Rightarrow> tick \<times> tick list" where
  "next_tick [] = (Arrive [], [])"
| "next_tick (t # ts) = (t, ts)"

definition receive :: "string \<Rightarrow> serial option \<Rightarrow> serial option" where
  "receive bs chan = map_option (\<lambda>ch. ch\<lparr>in_buf := in_buf ch @ bs\<rparr>) chan"

text \<open>\<open>time.sleep\<close>, in milliseconds.\<close>

definition sleep :: "nat \<Rightarrow> controller \<Rightarrow> unit result" where
  "sleep ms s =
     (let s1 = s\<lparr>sleeps := sleeps s @ [ms]\<rparr> in
      case next_tick (ticks s1) of
        (Arrive bs, ts) \<Rightarrow> (Inr (), s1\<lparr>ticks := ts, ser := receive bs (ser s1)\<rparr>)
      | (Interrupt, ts) \<Rightarrow> (Inl KeyboardInterrupt, s1\<lparr>ticks := ts\<rparr>)
      | (Dead, ts) \<Rightarrow> (Inr (), s1))"

text \<open>
  \<open>__init__\<close> in a given environment (the log directory is created if it is missing, so
  the store is there either way; the active-call attribute is not set yet), and
  \<open>connect\<close>, whose outcome is the environment's: the port opens, or opening it raises
  a \<open>SerialException\<close> with a message.
\<close>

definition new_controller ::
  "pystr \<Rightarrow> nat \<Rightarrow> (pystr \<times> pystr) list \<Rightarrow> (pystr \<Rightarrow> int) \<Rightarrow> tick list \<Rightarrow> (nat \<Rightarrow> stamp) \<Rightarrow> controller"
  where
  "new_controller prt baud dir mtimes script clk =
     \<lparr>port = prt, baudrate = baud, ser = None, call_active = None, files = dir, out = [],
      ticks = script, sleeps = [], clock = clk, clock_reads = 0, getmtime = mtimes\<rparr>"

definition connect :: "pystr option \<Rightarrow> controller \<Rightarrow> bool \<times> controller" where
  "connect failure s =
     (case failure of
        None \<Rightarrow>
          (True,
           py_print ([0x2705] @ u '' '' @ [0x5DF2, 0x9023, 0x63A5, 0x5230] @ u '' '' @ port s)
             (s\<lparr>ser := Some \<lparr>in_buf = [], written = []\<rparr>\<rparr>))
      | Some e \<Rightarrow>
          (False,
           py_print ([0x274C] @ u '' '' @ [0x9023, 0x63A5, 0x5931, 0x6557] @ u '': '' @ e) s))"

section \<open>The AT command transceiver\<close>

definition msg_not_connected :: pystr where
  "msg_not_connected = [0x274C] @ u '' '' @ [0x672A, 0x9023, 0x63A5]"

text \<open>
  \<open>send_at\<close>: without a channel it prints and returns \<open>None\<close>.  Otherwise it writes the
  command line (which raises on a dead port), sleeps, and reads while bytes are waiting; bytes arrive during sleeps only,
  so the reading loop runs at most once.  The channel does not vanish during the sleep; the
  branch for that case is what reading an attribute of \<open>None\<close> would do.
\<close>

definition send_at :: "pystr \<Rightarrow> nat \<Rightarrow> controller \<Rightarrow> pystr option result" where
  "send_at command wait s =
     (case ser s of
        None \<Rightarrow> (Inr None, py_print msg_not_connected s)
      | Some ch \<Rightarrow>
          if fst (next_tick (ticks s)) = Dead then (Inl SerialException, s)
          else
            (case sleep wait (s\<lparr>ser := Some (ch\<lparr>written := written ch @ [command @ [13, 10]]\<rparr>)\<rparr>) of
               (Inl e, s2) \<Rightarrow> (Inl e, s2)
             | (Inr _, s2) \<Rightarrow>
                 (case ser s2 of
                    None \<Rightarrow> (Inl AttributeError, s2)
                  | Some ch2 \<Rightarrow>
                      (let response = (if in_buf ch2 \<noteq> [] then decode (in_buf ch2) else [])
                       in (Inr (Some (py_strip response)),
                           s2\<lparr>ser := Some (ch2\<lparr>in_buf := []\<rparr>)\<rparr>)))))"

section \<open>Signal quality\<close>

text \<open>
  \<open>re.search(r'\+CSQ:\s*(\d+),(\d+)', result)\<close>.  At one start position the pattern can
  match in one way only: after the literal all white space is taken, then all digits, then
  the comma, then all digits; giving back white space or digits never helps, because the
  next item cannot start with one.  The search returns the leftmost match.
\<close>

definition csq_match_at :: "pystr \<Rightarrow> (pystr \<times> pystr) option" where
  "csq_match_at t =
     (if starts_with (u ''+CSQ:'') t then
        (let r1 = dropWhile py_isspace (drop 5 t);
             g1 = takeWhile py_isdigit r1
         in if g1 = [] then None
            else (case dropWhile py_isdigit r1 of
                    [] \<Rightarrow> None
                  | c # r2 \<Rightarrow>
                      if c = 44 then
                        (let g2 = takeWhile py_isdigit r2
                         in if g2 = [] then None else Some (g1, g2))
                      else None))
      else None)"

fun csq_search :: "pystr \<Rightarrow> (pystr \<times> pystr) option" where
  "csq_search [] = None"
| "csq_search (c # cs) =
     (case csq_match_at (c # cs) of
        Some m \<Rightarrow> Some m
      | None \<Rightarrow> csq_search cs)"

definition msg_no_signal :: pystr where
  "msg_no_signal = [0x7121, 0x8A0A, 0x865F]"

definition msg_strong :: "nat \<Rightarrow> pystr" where
  "msg_strong rssi = [0x8A0A, 0x865F, 0x5F37] @ u '' ('' @ py_str_nat rssi @ u ''/31)''"

definition msg_fair :: "nat \<Rightarrow> pystr" where
  "msg_fair rssi = [0x8A0A, 0x865F, 0x4E00, 0x822C] @ u '' ('' @ py_str_nat rssi @ u ''/31)''"

definition msg_no_read :: pystr where
  "msg_no_read = [0x7121, 0x6CD5, 0x7372, 0x53D6, 0x8A0A, 0x865F]"

definition get_signal :: "controller \<Rightarrow> pystr result" where
  "get_signal s =
     (case send_at (u ''AT+CSQ'') 1000 s of
        (Inl e, s1) \<Rightarrow> (Inl e, s1)
      | (Inr None, s1) \<Rightarrow> (Inr msg_no_read, s1)
      | (Inr (Some result), s1) \<Rightarrow>
          (if result \<noteq> [] \<and> py_in (u ''+CSQ:'') result then
             (case csq_search result of
                Some (g1, g2) \<Rightarrow>
                  (case py_int g1 of
                     Inl e \<Rightarrow> (Inl e, s1)
                   | Inr rssi \<Rightarrow>
                       if rssi = 99 then (Inr msg_no_signal, s1)
                       else if rssi \<ge> 20 then (Inr (msg_strong rssi), s1)
                       else (Inr (msg_fair rssi), s1))
              | None \<Rightarrow> (Inr msg_no_read, s1))
           else (Inr msg_no_read, s1)))"

section \<open>Calls\<close>

definition msg_hangup :: pystr where
  "msg_hangup = [0x1F4F4] @ u '' '' @ [0x6B63, 0x5728, 0x7D50, 0x675F, 0x901A, 0x8A71] @ u ''...''"

text \<open>
  \<open>hangup\<close>: the flag is cleared after the command and before the membership test, which
  raises \<open>TypeError\<close> when \<open>send_at\<close> returned \<open>None\<close>.
\<close>

definition hangup :: "controller \<Rightarrow> bool result" where
  "hangup s =
     (case send_at (u ''ATH'') 1000 (py_print msg_hangup s) of
        (Inl e, s1) \<Rightarrow> (Inl e, s1)
      | (Inr result, s1) \<Rightarrow>
          (let s2 = s1\<lparr>call_active := Some False\<rparr>
           in case result of
                None \<Rightarrow> (Inl TypeError, s2)
              | Some r \<Rightarrow> (Inr (py_in (u ''OK'') r), s2)))"

text \<open>
  What \<open>hangup\<close> needs in order to return: a channel, a port that is not dead, and a settle
  wait that is not interrupted.
\<close>

definition port_answers :: "controller \<Rightarrow> bool" where
  "port_answers s \<longleftrightarrow>
     (case ser s of
        None \<Rightarrow> False
      | Some ch \<Rightarrow>
          (case fst (next_tick (ticks s)) of
             Arrive bs \<Rightarrow> True
           | Interrupt \<Rightarrow> False
           | Dead \<Rightarrow> False))"

subsection \<open>The log store\<close>

text \<open>
  Opening a new file in the log directory.  The directory is flat and its file system takes
  names of up to 255 bytes, as the usual Linux file systems do.  A name with a NUL is refused
  with \<open>ValueError\<close> before the system is asked; a name with a \<open>/\<close> leads through a
  directory that is not there (\<open>FileNotFoundError\<close>), and an over-long name is refused
  (\<open>File name too long\<close>); both of these are \<open>OSError\<close>.
\<close>

definition utf8_len :: "pystr \<Rightarrow> nat" where
  "utf8_len name =
     sum_list (map (\<lambda>c. if c < 0x80 then 1 else if c < 0x800 then 2
                          else if c < 0x10000 then 3 else 4) name)"

definition open_error :: "pystr \<Rightarrow> error option" where
  "open_error name =
     (if 0 \<in> set name then Some ValueError
      else if 47 \<in> set name \<or> 255 < utf8_len name then Some OSError
      else None)"

text \<open>\<open>open(path, 'w')\<close> followed by writes: the file is created, or emptied and rewritten.\<close>

fun write_file :: "pystr \<Rightarrow> pystr \<Rightarrow> (pystr \<times> pystr) list \<Rightarrow> (pystr \<times> pystr) list" where
  "write_file name txt [] = [(name, txt)]"
| "write_file name txt ((n, c) # fs) =
     (if n = name then (n, txt) # fs else (n, c) # write_file name txt fs)"

text \<open>
  \<open>open(path, 'a')\<close> followed by a write: the file is created if missing.  The monitor
  appends to a path that \<open>make_call\<close> has opened before, or that \<open>answer_call\<close> has made
  from a time stamp, so this open is not given a failure.
\<close>

fun append_file :: "pystr \<Rightarrow> pystr \<Rightarrow> (pystr \<times> pystr) list \<Rightarrow> (pystr \<times> pystr) list" where
  "append_file name txt [] = [(name, txt)]"
| "append_file name txt ((n, c) # fs) =
     (if n = name then (n, c @ txt) # fs else (n, c) # append_file name txt fs)"

text \<open>The printed form of a path in the log directory.\<close>

definition path_text :: "pystr \<Rightarrow> pystr" where
  "path_text name = u ''call_logs/'' @ name"

definition banner :: pystr where
  "banner = u ''=== '' @ [0x901A, 0x8A71, 0x8A18, 0x9304] @ u '' ==='' @ [10]"

definition label_outgoing :: pystr where
  "label_outgoing = [0x6253, 0x51FA]"

definition label_incoming :: pystr where
  "label_incoming = [0x63A5, 0x6536]"

definition type_line :: "pystr \<Rightarrow> pystr" where
  "type_line call_type =
     [0x985E, 0x578B] @ u '': ''
       @ (if call_type = u ''outgoing'' then label_outgoing else label_incoming) @ [10]"

definition number_line :: "pystr \<Rightarrow> pystr" where
  "number_line number = [0x865F, 0x78BC] @ u '': '' @ number @ [10]"

definition time_line :: "stamp \<Rightarrow> pystr" where
  "time_line t = [0x6642, 0x9593] @ u '': '' @ full t @ [10]"

definition footer :: pystr where
  "footer = u ''=================='' @ [10, 10]"

definition header :: "pystr \<Rightarrow> pystr \<Rightarrow> stamp \<Rightarrow> pystr" where
  "header call_type number t =
     banner @ type_line call_type @ number_line number @ time_line t @ footer"

text \<open>
  \<open>_create_log_file\<close>: the name is made from the first reading of the clock; if the file
  cannot be opened the error leaves the function before anything is written.
\<close>

definition create_log_file :: "pystr \<Rightarrow> pystr \<Rightarrow> controller \<Rightarrow> pystr result" where
  "create_log_file call_type number s =
     (let (t1, s1) = now s;
          filename = call_type @ u ''_'' @ number @ u ''_'' @ compact t1 @ u ''.txt''
      in case open_error filename of
           Some e \<Rightarrow> (Inl e, s1)
         | None \<Rightarrow>
             (let (t2, s2) = now s1
              in (Inr filename,
                  s2\<lparr>files := write_file filename (header call_type number t2) (files s2)\<rparr>)))"

subsection \<open>Monitoring a call\<close>

definition msg_remote_hangup :: pystr where
  "msg_remote_hangup = [0x1F4F4] @ u '' '' @ [0x5C0D, 0x65B9, 0x5DF2, 0x639B, 0x7DDA]"

definition msg_conversation :: pystr where
  "msg_conversation =
     [0x1F4AC] @ u '' '' @ [0x5C0D, 0x8A71, 0x5167, 0x5BB9] @ u '' (Ctrl+C ''
       @ [0x7D50, 0x675F, 0x901A, 0x8A71] @ u ''):''"

definition msg_interrupted :: pystr where
  "msg_interrupted = [10, 0x26A0, 0xFE0F] @ u '' '' @ [0x7528, 0x6236, 0x4E2D, 0x65B7]"

definition msg_recording :: "pystr \<Rightarrow> pystr" where
  "msg_recording log_file =
     [0x1F4DD] @ u '' '' @ [0x6B63, 0x5728, 0x8A18, 0x9304, 0x901A, 0x8A71, 0x5230] @ u '': ''
       @ path_text log_file"

definition msg_saved :: "pystr \<Rightarrow> pystr" where
  "msg_saved log_file =
     [0x2705] @ u '' '' @ [0x901A, 0x8A71, 0x8A18, 0x9304, 0x5DF2, 0x4FDD, 0x5B58] @ u '': ''
       @ path_text log_file"

text \<open>
  The first step of a cycle: bytes that are waiting are read and decoded; a non-empty text
  is shown and appended to the log with the time of day.
\<close>

definition read_incidental :: "pystr \<Rightarrow> controller \<Rightarrow> controller" where
  "read_incidental log_file s =
     (case ser s of
        None \<Rightarrow> s
      | Some ch \<Rightarrow>
          if in_buf ch \<noteq> [] then
            (let data = decode (in_buf ch);
                 s1 = s\<lparr>ser := Some (ch\<lparr>in_buf := []\<rparr>)\<rparr>
             in if data \<noteq> [] then
                  (let s2 = py_print (u ''  > '' @ py_strip data) s1;
                       (t, s3) = now s2
                   in s3\<lparr>files :=
                          append_file log_file (u ''['' @ hms t @ u ''] '' @ py_strip data @ [10])
                            (files s3)\<rparr>)
                else s1)
          else s)"

text \<open>The test on the status poll: a non-empty answer without the character \<open>0\<close>.\<close>

definition ended :: "pystr option \<Rightarrow> bool" where
  "ended result =
     (case result of
        None \<Rightarrow> False
      | Some r \<Rightarrow> r \<noteq> [] \<and> \<not> py_in (u ''0'') r)"

definition monitor_cycle :: "pystr \<Rightarrow> controller \<Rightarrow> unit result" where
  "monitor_cycle log_file s =
     (case send_at (u ''AT+CPAS'') 500 (read_incidental log_file s) of
        (Inl e, s1) \<Rightarrow> (Inl e, s1)
      | (Inr result, s1) \<Rightarrow>
          sleep 500
            (if ended result then (py_print msg_remote_hangup s1)\<lparr>call_active := Some False\<rparr>
             else s1))"

text \<open>
  The loop \<open>while self._call_active\<close>, with fuel: each test of the loop condition uses
  one unit, and \<open>None\<close> means that the loop has not ended when the fuel is used up.
  Reading the flag before it was ever set raises \<open>AttributeError\<close>.
\<close>

fun monitor_loop :: "nat \<Rightarrow> pystr \<Rightarrow> controller \<Rightarrow> unit result option" where
  "monitor_loop 0 log_file s = None"
| "monitor_loop (Suc n) log_file s =
     (case call_active s of
        None \<Rightarrow> Some (Inl AttributeError, s)
      | Some False \<Rightarrow> Some (Inr (), s)
      | Some True \<Rightarrow>
          (case monitor_cycle log_file s of
             (Inl e, s1) \<Rightarrow> Some (Inl e, s1)
           | (Inr _, s1) \<Rightarrow> monitor_loop n log_file s1))"

text \<open>
  \<open>_monitor_call\<close>: the interrupt is handled, any other error goes on after the
  \<open>finally\<close> block; an error raised by \<open>hangup\<close> inside that block replaces it and
  skips the last line.
\<close>

definition monitor_call ::
  "nat \<Rightarrow> pystr \<Rightarrow> pystr \<Rightarrow> pystr \<Rightarrow> controller \<Rightarrow> unit result option" where
  "monitor_call fuel log_file number call_type s =
     (case monitor_loop fuel log_file (py_print msg_conversation (py_print (msg_recording log_file) s)) of
        None \<Rightarrow> None
      | Some (r, s1) \<Rightarrow>
          (let s2 = (if r = Inl KeyboardInterrupt then py_print msg_interrupted s1 else s1)
           in case hangup s2 of
                (Inl e, s3) \<Rightarrow> Some (Inl e, s3)
              | (Inr _, s3) \<Rightarrow>
                  Some (if r = Inl KeyboardInterrupt then Inr () else r,
                        py_print (msg_saved log_file) s3)))"

subsection \<open>Dialling and answering\<close>

definition msg_dialing :: "pystr \<Rightarrow> pystr" where
  "msg_dialing phone_number =
     [0x1F4DE] @ u '' '' @ [0x7DCA, 0x6253, 0x53BB] @ u '' '' @ phone_number @ u ''...''"

definition msg_in_call :: pystr where
  "msg_in_call =
     [0x2705] @ u '' '' @ [0x6B63, 0x5728, 0x901A, 0x8A71, 0x4E2D] @ u ''... ('' @ [0x6309]
       @ u '' Ctrl+C '' @ [0x7D50, 0x675F] @ u '')''"

definition msg_dial_failed :: "pystr \<Rightarrow> pystr" where
  "msg_dial_failed result =
     [0x274C] @ u '' '' @ [0x6253, 0x51FA, 0x5931, 0x6557] @ u '': '' @ result"

definition msg_answering :: pystr where
  "msg_answering = [0x1F4DE] @ u '' '' @ [0x6B63, 0x5728, 0x63A5, 0x807D] @ u ''...''"

definition msg_answered :: pystr where
  "msg_answered =
     [0x2705] @ u '' '' @ [0x5DF2, 0x63A5, 0x807D, 0xFF01, 0x958B, 0x59CB, 0x5C0D, 0x8A71]
       @ u ''...''"

definition make_call :: "nat \<Rightarrow> pystr \<Rightarrow> controller \<Rightarrow> bool result option" where
  "make_call fuel phone_number s =
     (case send_at (u ''ATD'' @ phone_number @ u '';'') 2000 (py_print (msg_dialing phone_number) s) of
        (Inl e, s1) \<Rightarrow> Some (Inl e, s1)
      | (Inr None, s1) \<Rightarrow> Some (Inl TypeError, s1)
      | (Inr (Some result), s1) \<Rightarrow>
          if py_in (u ''OK'') result \<or> py_in (u ''CALL'') result then
            (case create_log_file (u ''outgoing'') phone_number
                    ((py_print msg_in_call s1)\<lparr>call_active := Some True\<rparr>) of
               (Inl e, s2) \<Rightarrow> Some (Inl e, s2)
             | (Inr log_file, s2) \<Rightarrow>
                 (case sleep 2000 s2 of
                    (Inl e, s3) \<Rightarrow> Some (Inl e, s3)
                  | (Inr _, s3) \<Rightarrow>
                      (case monitor_call fuel log_file phone_number (u ''outgoing'') s3 of
                         None \<Rightarrow> None
                       | Some (Inl e, s4) \<Rightarrow> Some (Inl e, s4)
                       | Some (Inr _, s4) \<Rightarrow> Some (Inr True, s4))))
          else Some (Inr False, py_print (msg_dial_failed result) s1))"

definition answer_call :: "nat \<Rightarrow> controller \<Rightarrow> bool result option" where
  "answer_call fuel s =
     (case send_at (u ''ATA'') 1000 (py_print msg_answering s) of
        (Inl e, s1) \<Rightarrow> Some (Inl e, s1)
      | (Inr None, s1) \<Rightarrow> Some (Inl TypeError, s1)
      | (Inr (Some result), s1) \<Rightarrow>
          if py_in (u ''OK'') result then
            (let (t, s2) = now ((py_print msg_answered s1)\<lparr>call_active := Some True\<rparr>);
                 log_file = u ''incoming_'' @ compact t @ u ''.txt''
             in case monitor_call fuel log_file (u ''incoming'') (u ''incoming'') s2 of
                  None \<Rightarrow> None
                | Some (Inl e, s3) \<Rightarrow> Some (Inl e, s3)
                | Some (Inr _, s3) \<Rightarrow> Some (Inr True, s3))
          else Some (Inr False, s1))"

section \<open>Listing the logs\<close>

text \<open>
  \<open>readlines\<close> of a file opened in text mode: lines end at \<open>\n\<close>, \<open>\r\n\<close> or \<open>\r\<close>,
  each read as \<open>\n\<close> and kept at the end of its line.
\<close>

fun readlines_from :: "pystr \<Rightarrow> pystr \<Rightarrow> pystr list" where
  "readlines_from cur [] = (if cur = [] then [] else [cur])"
| "readlines_from cur (c # cs) =
     (if c = 10 then (cur @ [10]) # readlines_from [] cs
      else if c = 13 then
        (case cs of
           [] \<Rightarrow> [cur @ [10]]
         | d # ds \<Rightarrow>
             if d = 10 then (cur @ [10]) # readlines_from [] ds
             else (cur @ [10]) # readlines_from [] cs)
      else readlines_from (cur @ [c]) cs)"

definition readlines :: "pystr \<Rightarrow> pystr list" where
  "readlines content = readlines_from [] content"

definition is_txt :: "pystr \<Rightarrow> bool" where
  "is_txt name \<longleftrightarrow> 4 \<le> length name \<and> drop (length name - 4) name = u ''.txt''"

text \<open>
  \<open>sorted(glob("*.txt"), key=os.path.getmtime, reverse=True)\<close>: a stable sort in
  descending order, which is the ascending stable sort of the reversed list, reversed.
\<close>

definition recent_logs :: "controller \<Rightarrow> (pystr \<times> pystr) list" where
  "recent_logs s =
     rev (sort_key (\<lambda>(name, content). getmtime s name)
            (rev (filter (\<lambda>(name, content). is_txt name) (files s))))"

definition msg_logs_title :: pystr where
  "msg_logs_title = [10] @ u ''=== '' @ [0x901A, 0x8A71, 0x8A18, 0x9304] @ u '' ===''"

definition msg_no_logs :: pystr where
  "msg_no_logs = [0x66AB, 0x7121, 0x8A18, 0x9304]"

definition msg_file :: "pystr \<Rightarrow> pystr" where
  "msg_file name = [10, 0x1F4C4] @ u '' '' @ name"

definition msg_line :: "pystr \<Rightarrow> pystr" where
  "msg_line line = u ''   '' @ py_strip line"

text \<open>The loop over the listed files; \<open>lines[1]\<close> raises \<open>IndexError\<close> on a one-line file.\<close>

fun show_logs :: "(pystr \<times> pystr) list \<Rightarrow> controller \<Rightarrow> unit result" where
  "show_logs [] s = (Inr (), s)"
| "show_logs ((name, content) # logs) s =
     (case readlines content of
        [] \<Rightarrow> show_logs logs (py_print (msg_file name) s)
      | [l0] \<Rightarrow> (Inl IndexError, py_print (msg_line l0) (py_print (msg_file name) s))
      | l0 # l1 # ls \<Rightarrow>
          show_logs logs
            (py_print (msg_line l1) (py_print (msg_line l0) (py_print (msg_file name) s))))"

definition list_call_logs :: "controller \<Rightarrow> unit result" where
  "list_call_logs s =
     (let s1 = py_print msg_logs_title s;
          logs = recent_logs s1
      in if logs = [] then (Inr (), py_print msg_no_logs s1)
         else show_logs (take 10 logs) s1)"

section \<open>A concrete session\<close>

text \<open>
  A controller made on the default port in an empty log directory and connected, with a
  given script and a clock that stands still.
\<close>

definition demo_clock :: "nat \<Rightarrow> stamp" where
  "demo_clock n =
     \<lparr>compact = u ''20240101_120000'', full = u ''2024-01-01 12:00:00'', hms = u ''12:00:00''\<rparr>"

definition unconnected_session :: "tick list \<Rightarrow> controller" where
  "unconnected_session script =
     new_controller (u ''/dev/ttyUSB0'') 115200 [] (\<lambda>name. 0) script demo_clock"

definition demo_session :: "tick list \<Rightarrow> controller" where
  "demo_session script = snd (connect None (unconnected_session script))"

text \<open>
  An answer to \<open>AT+CSQ\<close> with two matches, as bytes: the first is written with the
  Arabic-Indic digits for 99 and 0, the second is \<open>+CSQ: 25,0\<close> on the next line.
\<close>

definition two_scripts_reply :: string where
  "two_scripts_reply =
     ''+CSQ: '' @ [CHR 0xD9, CHR 0xA9, CHR 0xD9, CHR 0xA9] @ '','' @ [CHR 0xD9, CHR 0xA0]
       @ [CHR 0x0D, CHR 0x0A] @ ''+CSQ: 25,0''"

text \<open>The same session with a call in progress, and a log path.\<close>

definition in_call :: "tick list \<Rightarrow> controller" where
  "in_call script = (demo_session script)\<lparr>call_active := Some True\<rparr>"

definition demo_log :: pystr where
  "demo_log = u ''incoming_20240101_120000.txt''"

text \<open>
  A log directory with eleven files: ten with two lines each, and \<open>old.txt\<close> with one
  line, which was modified before all the others.
\<close>

definition full_dir :: "(pystr \<times> pystr) list" where
  "full_dir =
     (u ''old.txt'', u ''[12:00:00] RING'' @ [10]) #
     map (\<lambda>i. (u ''call'' @ [48 + i] @ u ''.txt'', banner @ type_line (u ''outgoing'')))
       [0, 1, 2, 3, 4, 5, 6, 7, 8, 9]"

definition full_dir_mtime :: "pystr \<Rightarrow> int" where
  "full_dir_mtime name = (if name = u ''old.txt'' then 0 else 1)"

definition full_dir_session :: controller where
  "full_dir_session =
     snd (connect None
            (new_controller (u ''/dev/ttyUSB0'') 115200 full_dir full_dir_mtime [] demo_clock))"

text \<open>A log directory holding one log with a single line.\<close>

definition one_line_session :: controller where
  "one_line_session =
     snd (connect None
            (new_controller (u ''/dev/ttyUSB0'') 115200
               [(demo_log, u ''[12:00:00] RING'' @ [10])] (\<lambda>name. 0) [] demo_clock))"

section \<open>Properties of the transceiver\<close>

lemma decode_Nil: "decode [] = []"
  by (simp add: decode_def)

lemma send_at_connected:
  "ser s = Some ch \<Longrightarrow> next_tick (ticks s) = (Arrive bs, ts) \<Longrightarrow>
   send_at cmd w s =
     (Inr (Some (py_strip (decode (in_buf ch @ bs)))),
      s\<lparr>sleeps := sleeps s @ [w], ticks := ts,
        ser := Some (ch\<lparr>written := written ch @ [cmd @ [13, 10]], in_buf := []\<rparr>)\<rparr>)"
  by (simp add: send_at_def sleep_def Let_def receive_def decode_Nil)

lemma send_at_interrupt:
  "ser s = Some ch \<Longrightarrow> next_tick (ticks s) = (Interrupt, ts) \<Longrightarrow>
   send_at cmd w s =
     (Inl KeyboardInterrupt,
      s\<lparr>sleeps := sleeps s @ [w], ticks := ts,
        ser := Some (ch\<lparr>written := written ch @ [cmd @ [13, 10]]\<rparr>)\<rparr>)"
  by (simp add: send_at_def sleep_def Let_def)

lemma send_at_unconnected:
  "ser s = None \<Longrightarrow> send_at cmd w s = (Inr None, py_print msg_not_connected s)"
  by (simp add: send_at_def)

lemma demo_ser: "ser (demo_session script) = Some \<lparr>in_buf = [], written = []\<rparr>"
  by (simp add: demo_session_def connect_def unconnected_session_def new_controller_def
      py_print_def)

lemma demo_ticks: "ticks (demo_session script) = script"
  by (simp add: demo_session_def connect_def unconnected_session_def new_controller_def
      py_print_def)

section \<open>Signal classification\<close>

lemma csq_match_at_starts: "csq_match_at t = Some m \<Longrightarrow> starts_with (u ''+CSQ:'') t"
  by (simp add: csq_match_at_def split: if_splits)

lemma csq_search_in: "csq_search r = Some m \<Longrightarrow> r \<noteq> [] \<and> py_in (u ''+CSQ:'') r"
  by (induction r) (auto split: option.splits dest: csq_match_at_starts)

lemma get_signal_eq:
  assumes "ser s = Some ch" "next_tick (ticks s) = (Arrive bs, ts)"
    "csq_search (py_strip (decode (in_buf ch @ bs))) = Some (g1, g2)"
  shows "fst (get_signal s) =
     (if 4300 < length g1 then Inl ValueError
      else Inr (if digits_value g1 = 99 then msg_no_signal
                else if 20 \<le> digits_value g1 then msg_strong (digits_value g1)
                else msg_fair (digits_value g1)))"
  using assms csq_search_in[OF assms(3)]
  by (simp add: get_signal_def send_at_connected py_int_def)

lemma length_u [simp]: "length (u cs) = length cs"
  by (simp add: u_def)

lemma strong_not_no_read: "msg_strong n \<noteq> msg_no_read"
  by (simp add: msg_strong_def msg_no_read_def)

lemma py_int_limit:
  "py_int (replicate 4300 49) = Inr (digits_value (replicate 4300 49))"
  "py_int (replicate 4301 49) = Inl ValueError"
  by (simp_all add: py_int_def)

lemma digit_chars:
  "py_isdigit 48" "py_isdigit 50" "py_isdigit 53" "py_isdigit 55" "py_isdigit 57"
  "py_isdigit 0x660" "py_isdigit 0x669" "\<not> py_isdigit 44" "\<not> py_isdigit 13"
  "py_decimal 48 = Some 0" "py_decimal 50 = Some 2" "py_decimal 53 = Some 5"
  "py_decimal 55 = Some 7" "py_decimal 57 = Some 9" "py_decimal 0x669 = Some 9"
  by (simp_all add: py_isdigit_def py_decimal_def digit_zeros_def)

lemma csq_reply_text:
  "py_strip (decode ''+CSQ: 50,0'') = u ''+CSQ: 50,0''"
  "py_strip (decode ''+CSQ: 99,99'') = u ''+CSQ: 99,99''"
  "py_strip (decode ''+CSQ: 25,0'') = u ''+CSQ: 25,0''"
  "py_strip (decode ''+CSQ: 7,0'') = u ''+CSQ: 7,0''"
  by (simp_all add: py_strip_def decode_def u_def py_isspace_def)

lemma csq_reply_match:
  "csq_search (u ''+CSQ: 50,0'') = Some (u ''50'', u ''0'')"
  "csq_search (u ''+CSQ: 99,99'') = Some (u ''99'', u ''99'')"
  "csq_search (u ''+CSQ: 25,0'') = Some (u ''25'', u ''0'')"
  "csq_search (u ''+CSQ: 7,0'') = Some (u ''7'', u ''0'')"
  by (simp_all add: csq_match_at_def starts_with_def u_def py_isspace_def digit_chars Let_def)

lemma csq_reply_int:
  "digits_value (u ''50'') = 50" "digits_value (u ''99'') = 99" "digits_value (u ''25'') = 25"
  "digits_value (u ''7'') = 7"
  by (simp_all add: digits_value_def u_def digit_chars)

lemma two_scripts_text:
  "py_strip (decode two_scripts_reply) =
     [43, 67, 83, 81, 58, 32, 0x669, 0x669, 44, 0x660, 13, 10,
      43, 67, 83, 81, 58, 32, 50, 53, 44, 48]"
  by (simp add: two_scripts_reply_def py_strip_def decode_def py_isspace_def is_cont_def)

lemma two_scripts_match:
  "csq_search (py_strip (decode two_scripts_reply)) = Some ([0x669, 0x669], [0x660])"
  unfolding two_scripts_text
  by (simp add: csq_match_at_def starts_with_def u_def py_isspace_def digit_chars Let_def)

lemma two_scripts_int: "digits_value [0x669, 0x669] = 99"
  by (simp add: digits_value_def digit_chars)

text \<open>
  C6, as the code has it.  On a connected session whose answer to \<open>AT+CSQ\<close> holds a match
  of the pattern, the leftmost match decides and its first group \<open>g1\<close>, a string of
  decimal digits of any script, is read by \<open>int()\<close>.  With more than 4300 digits that
  raises \<open>ValueError\<close>, which leaves \<open>get_signal\<close>.  Otherwise the value \<open>rssi\<close> is
  classified as follows: 99 is "no signal"; 20 to 31 is "strong"; 0 to 19 is "fair"; and
  every value from 32 on other than 99 is "strong" as well, shown with the value, and is not
  answered with the "unable to read" text.
\<close>

theorem get_signal_classification:
  assumes "ser s = Some ch" and "next_tick (ticks s) = (Arrive bs, ts)"
    and "csq_search (py_strip (decode (in_buf ch @ bs))) = Some (g1, g2)"
    and "rssi = digits_value g1"
  shows "fst (get_signal s) =
           (if 4300 < length g1 then Inl ValueError
            else Inr (if rssi = 99 then msg_no_signal
                      else if 20 \<le> rssi then msg_strong rssi else msg_fair rssi)) \<and>
         (length g1 \<le> 4300 \<longrightarrow>
            (rssi = 99 \<longrightarrow> fst (get_signal s) = Inr msg_no_signal) \<and>
            (20 \<le> rssi \<and> rssi \<le> 31 \<longrightarrow> fst (get_signal s) = Inr (msg_strong rssi)) \<and>
            (rssi \<le> 19 \<longrightarrow> fst (get_signal s) = Inr (msg_fair rssi)) \<and>
            (32 \<le> rssi \<and> rssi \<noteq> 99 \<longrightarrow>
               fst (get_signal s) = Inr (msg_strong rssi) \<and>
               fst (get_signal s) \<noteq> Inr msg_no_read))"
  using get_signal_eq[OF assms(1-3)] assms(4) by (simp add: strong_not_no_read)

theorem get_signal_classification_witness:
  "fst (get_signal (demo_session [Arrive ''+CSQ: 99,99''])) = Inr msg_no_signal \<and>
   fst (get_signal (demo_session [Arrive ''+CSQ: 25,0''])) = Inr (msg_strong 25) \<and>
   fst (get_signal (demo_session [Arrive ''+CSQ: 7,0''])) = Inr (msg_fair 7) \<and>
   fst (get_signal (demo_session [Arrive ''+CSQ: 50,0''])) = Inr (msg_strong 50) \<and>
   fst (get_signal (demo_session [Arrive two_scripts_reply])) = Inr msg_no_signal"
  using
    get_signal_classification[of "demo_session [Arrive ''+CSQ: 99,99'']"
      "\<lparr>in_buf = [], written = []\<rparr>" "''+CSQ: 99,99''" "[]" "u ''99''" "u ''99''" 99]
    get_signal_classification[of "demo_session [Arrive ''+CSQ: 25,0'']"
      "\<lparr>in_buf = [], written = []\<rparr>" "''+CSQ: 25,0''" "[]" "u ''25''" "u ''0''" 25]
    get_signal_classification[of "demo_session [Arrive ''+CSQ: 7,0'']"
      "\<lparr>in_buf = [], written = []\<rparr>" "''+CSQ: 7,0''" "[]" "u ''7''" "u ''0''" 7]
    get_signal_classification[of "demo_session [Arrive ''+CSQ: 50,0'']"
      "\<lparr>in_buf = [], written = []\<rparr>" "''+CSQ: 50,0''" "[]" "u ''50''" "u ''0''" 50]
    get_signal_classification[of "demo_session [Arrive two_scripts_reply]"
      "\<lparr>in_buf = [], written = []\<rparr>" two_scripts_reply "[]" "[0x669, 0x669]" "[0x660]" 99]
  by (simp add: demo_ser demo_ticks csq_reply_text csq_reply_match csq_reply_int
      two_scripts_match two_scripts_int)

text \<open>
  The answer \<open>+CSQ: 50,0\<close> matches the pattern with \<open>rssi = 50\<close>, outside 0 to 31 and
  not 99; the session answers "strong (50/31)", not the "unable to read" text.
\<close>

theorem get_signal_out_of_range_counterexample:
  "csq_search (py_strip (decode ''+CSQ: 50,0'')) = Some (u ''50'', u ''0'') \<and>
   py_int (u ''50'') = Inr 50 \<and>
   fst (get_signal (demo_session [Arrive ''+CSQ: 50,0''])) = Inr (msg_strong 50) \<and>
   msg_strong 50 \<noteq> msg_no_read"
  by (simp add: get_signal_eq[of _ "\<lparr>in_buf = [], written = []\<rparr>" "''+CSQ: 50,0''" "[]"
        "u ''50''" "u ''0''"]
      demo_ser demo_ticks csq_reply_text csq_reply_match csq_reply_int strong_not_no_read
      py_int_def)

section \<open>Hanging up\<close>

lemma ser_py_print [simp]: "ser (py_print l s) = ser s" by (simp add: py_print_def)
lemma ticks_py_print [simp]: "ticks (py_print l s) = ticks s" by (simp add: py_print_def)
lemma files_py_print [simp]: "files (py_print l s) = files s" by (simp add: py_print_def)
lemma call_active_py_print [simp]: "call_active (py_print l s) = call_active s" by (simp add: py_print_def)
lemma out_py_print [simp]: "out (py_print l s) = out s @ [l]" by (simp add: py_print_def)

lemma hangup_connected:
  assumes "ser s = Some ch" "next_tick (ticks s) = (Arrive bs, ts)"
  shows "hangup s =
     (Inr (py_in (u ''OK'') (py_strip (decode (in_buf ch @ bs)))),
      (py_print msg_hangup s)\<lparr>sleeps := sleeps s @ [1000], ticks := ts,
        ser := Some (ch\<lparr>written := written ch @ [u ''ATH'' @ [13, 10]], in_buf := []\<rparr>),
        call_active := Some False\<rparr>)"
  using assms
  by (simp add: hangup_def send_at_connected[where ch=ch and bs=bs and ts=ts] Let_def py_print_def)

lemma hangup_unconnected:
  "ser s = None \<Longrightarrow>
   hangup s = (Inl TypeError, (py_print msg_not_connected (py_print msg_hangup s))\<lparr>call_active := Some False\<rparr>)"
  by (simp add: hangup_def send_at_unconnected Let_def)

lemma ok_reply: "py_strip (decode ''OK'') = u ''OK''" "py_strip (decode []) = []"
  by (simp_all add: py_strip_def decode_def u_def py_isspace_def)
lemma ok_in: "py_in (u ''OK'') (u ''OK'')" "u ''OK'' \<noteq> []"
  by (simp_all add: u_def starts_with_def)

lemma demo_files: "files (demo_session script) = []"
  by (simp add: demo_session_def connect_def unconnected_session_def new_controller_def
      py_print_def)

lemma demo_call_active: "call_active (demo_session script) = None"
  by (simp add: demo_session_def connect_def unconnected_session_def new_controller_def
      py_print_def)

text \<open>
  C9.  On a connected session, with no interrupt during the two settle waits, \<open>hangup\<close>
  twice in a row returns normally both times, whatever the flag was before: each call
  returns whether the text read back from the modem contains \<open>OK\<close>, and the active-call
  flag is false after the first call and after the second.
\<close>

theorem hangup_idempotent:
  assumes "ser s = Some ch" and "next_tick (ticks s) = (Arrive b1, ts1)"
    and "next_tick ts1 = (Arrive b2, ts2)"
  shows "fst (hangup s) = Inr (py_in (u ''OK'') (py_strip (decode (in_buf ch @ b1)))) \<and>
         call_active (snd (hangup s)) = Some False \<and>
         fst (hangup (snd (hangup s))) = Inr (py_in (u ''OK'') (py_strip (decode b2))) \<and>
         call_active (snd (hangup (snd (hangup s)))) = Some False"
proof -
  let ?s1 = "snd (hangup s)"
  have h1: "hangup s =
     (Inr (py_in (u ''OK'') (py_strip (decode (in_buf ch @ b1)))),
      (py_print msg_hangup s)\<lparr>sleeps := sleeps s @ [1000], ticks := ts1,
        ser := Some (ch\<lparr>written := written ch @ [u ''ATH'' @ [13, 10]], in_buf := []\<rparr>),
        call_active := Some False\<rparr>)"
    by (rule hangup_connected[OF assms(1,2)])
  have ser1: "ser ?s1 = Some (ch\<lparr>written := written ch @ [u ''ATH'' @ [13, 10]], in_buf := []\<rparr>)"
    and ticks1: "ticks ?s1 = ts1"
    by (simp_all add: h1)
  have h2: "fst (hangup ?s1) = Inr (py_in (u ''OK'') (py_strip (decode b2)))"
    and a2: "call_active (snd (hangup ?s1)) = Some False"
    using hangup_connected[OF ser1, of b2 ts2] assms(3) ticks1 by simp_all
  show ?thesis using h1 h2 a2 by simp
qed

theorem hangup_idempotent_witness:
  "fst (hangup (demo_session [Arrive ''OK''])) = Inr True \<and>
   call_active (snd (hangup (demo_session [Arrive ''OK'']))) = Some False \<and>
   fst (hangup (snd (hangup (demo_session [Arrive ''OK''])))) = Inr False \<and>
   call_active (snd (hangup (snd (hangup (demo_session [Arrive ''OK''])))))  = Some False"
  using hangup_idempotent[of "demo_session [Arrive ''OK'']" "\<lparr>in_buf = [], written = []\<rparr>"
      "''OK''" "[]" "[]" "[]"]
  by (simp add: demo_ser demo_ticks ok_reply ok_in)

section \<open>Operations without a channel\<close>

lemma make_call_unconnected:
  "ser s = None \<Longrightarrow>
   make_call fuel number s =
     Some (Inl TypeError, py_print msg_not_connected (py_print (msg_dialing number) s))"
  by (simp add: make_call_def send_at_unconnected)

lemma answer_call_unconnected:
  "ser s = None \<Longrightarrow>
   answer_call fuel s =
     Some (Inl TypeError, py_print msg_not_connected (py_print msg_answering s))"
  by (simp add: answer_call_def send_at_unconnected)

lemma get_signal_unconnected:
  "ser s = None \<Longrightarrow> get_signal s = (Inr msg_no_read, py_print msg_not_connected s)"
  by (simp add: get_signal_def send_at_unconnected)

lemma unconnected_ser: "ser (unconnected_session script) = None"
  by (simp add: unconnected_session_def new_controller_def)

text \<open>
  C3, on a controller that was never connected: \<open>send_at\<close> returns \<open>None\<close> and
  \<open>get_signal\<close> answers with its fallback text, but \<open>make_call\<close>, \<open>answer_call\<close> and
  \<open>hangup\<close> apply \<open>in\<close> to that \<open>None\<close> and end with an uncaught \<open>TypeError\<close>.
\<close>

theorem unconnected_operations_raise:
  "fst (send_at (u ''AT'') 1000 (unconnected_session [])) = Inr None \<and>
   fst (get_signal (unconnected_session [])) = Inr msg_no_read \<and>
   map_option fst (make_call 1 (u ''+85312345678'') (unconnected_session [])) = Some (Inl TypeError) \<and>
   map_option fst (answer_call 1 (unconnected_session [])) = Some (Inl TypeError) \<and>
   fst (hangup (unconnected_session [])) = Inl TypeError"
  by (simp add: send_at_unconnected get_signal_unconnected make_call_unconnected
      answer_call_unconnected hangup_unconnected unconnected_ser)

section \<open>A rejected dial\<close>

lemma error_reply: "py_strip (decode ''ERROR'') = u ''ERROR''"
  by (simp add: py_strip_def decode_def u_def py_isspace_def)

lemma error_reply_not_affirmative:
  "\<not> py_in (u ''OK'') (u ''ERROR'')" "\<not> py_in (u ''CALL'') (u ''ERROR'')"
  by (simp_all add: u_def starts_with_def)


text \<open>
  C5.  On a connected session whose answer to the dial command contains neither \<open>OK\<close>
  nor \<open>CALL\<close>, \<open>make_call\<close> returns \<open>False\<close>; the log store and the active-call flag
  are as they were, and the observer stream has gained the dialling line and the
  rejection line with the answer.
\<close>

theorem make_call_rejected:
  assumes "ser s = Some ch" and "next_tick (ticks s) = (Arrive bs, ts)"
    and "result = py_strip (decode (in_buf ch @ bs))"
    and "\<not> py_in (u ''OK'') result" and "\<not> py_in (u ''CALL'') result"
  shows "\<exists>s'. make_call fuel number s = Some (Inr False, s') \<and>
           files s' = files s \<and> call_active s' = call_active s \<and>
           out s' = out s @ [msg_dialing number, msg_dial_failed result]"
  using assms
  by (simp add: make_call_def
      send_at_connected[where ch=ch and bs=bs and ts=ts] py_print_def)

theorem make_call_rejected_witness:
  "\<exists>s'. make_call 0 (u ''123'') (demo_session [Arrive ''ERROR'']) = Some (Inr False, s') \<and>
     files s' = [] \<and> call_active s' = None \<and>
     out s' = out (demo_session [Arrive ''ERROR'']) @ [msg_dialing (u ''123''), msg_dial_failed (u ''ERROR'')]"
  using make_call_rejected[of "demo_session [Arrive ''ERROR'']" "\<lparr>in_buf = [], written = []\<rparr>"
      "''ERROR''" "[]" "u ''ERROR''" 0 "u ''123''"]
  by (simp add: demo_ser demo_ticks demo_files demo_call_active error_reply error_reply_not_affirmative)

section \<open>One cycle of the monitor loop\<close>

lemma py_in_single: "py_in [c] r \<longleftrightarrow> c \<in> set r"
  by (induction r) (auto simp: starts_with_def)

lemma u_zero: "u ''0'' = [48]" by (simp add: u_def)

lemma ended_iff:
  "ended res \<longleftrightarrow> (\<exists>r. res = Some r \<and> r \<noteq> [] \<and> 48 \<notin> set r)"
  by (cases res) (simp_all add: ended_def u_zero py_in_single)

lemma sleep_call_active: "call_active (snd (sleep ms s)) = call_active s"
  by (simp add: sleep_def Let_def split: prod.splits tick.splits)

lemma send_at_call_active: "call_active (snd (send_at c w s)) = call_active s"
  by (auto simp: send_at_def sleep_def Let_def split: option.splits prod.splits tick.splits sum.splits)

lemma now_fields [simp]:
  "ser (snd (now s)) = ser s" "call_active (snd (now s)) = call_active s"
  "ticks (snd (now s)) = ticks s" "out (snd (now s)) = out s" "files (snd (now s)) = files s"
  by (simp_all add: now_def)

lemma read_incidental_call_active [simp]:
  "call_active (read_incidental lf s) = call_active s"
  by (auto simp: read_incidental_def Let_def now_def py_print_def split: option.splits)

lemma read_incidental_ticks [simp]: "ticks (read_incidental lf s) = ticks s"
  by (auto simp: read_incidental_def Let_def now_def py_print_def split: option.splits)

lemma monitor_cycle_after_poll:
  assumes "send_at (u ''AT+CPAS'') 500 (read_incidental lf s) = (Inr res, s1)"
    and "next_tick (ticks s1) = (Arrive bs2, ts2)"
  shows "\<exists>s'. monitor_cycle lf s = (Inr (), s') \<and>
           call_active s' = (if ended res then Some False else call_active s)"
proof -
  have ca: "call_active s1 = call_active s"
    using send_at_call_active[of "u ''AT+CPAS''" 500 "read_incidental lf s"] assms(1) by simp
  show ?thesis
    using assms ca by (simp add: monitor_cycle_def sleep_def Let_def py_print_def)
qed

text \<open>
  C1.  In a cycle that starts with the active-call flag set and is not interrupted: if the
  \<open>AT+CPAS\<close> poll returns a non-empty text without the character \<open>0\<close>, the cycle clears
  the flag and the loop ends after it, without another cycle; if the poll returns nothing
  (no channel), the empty text, or a text with a \<open>0\<close> in it, the flag stays set and the
  loop goes on with the next cycle.
\<close>

theorem monitor_cycle_hangup_detection:
  assumes "call_active s = Some True"
    and "send_at (u ''AT+CPAS'') 500 (read_incidental lf s) = (Inr res, s1)"
    and "next_tick (ticks s1) = (Arrive bs2, ts2)"
  shows "((\<exists>r. res = Some r \<and> r \<noteq> [] \<and> 48 \<notin> set r) \<longrightarrow>
            (\<exists>s'. monitor_cycle lf s = (Inr (), s') \<and> call_active s' = Some False \<and>
                  monitor_loop (Suc (Suc n)) lf s = Some (Inr (), s'))) \<and>
         ((res = None \<or> res = Some [] \<or> (\<exists>r. res = Some r \<and> 48 \<in> set r)) \<longrightarrow>
            (\<exists>s'. monitor_cycle lf s = (Inr (), s') \<and> call_active s' = Some True \<and>
                  monitor_loop (Suc n) lf s = monitor_loop n lf s'))"
proof -
  obtain s' where c: "monitor_cycle lf s = (Inr (), s')"
    and a: "call_active s' = (if ended res then Some False else call_active s)"
    using monitor_cycle_after_poll[OF assms(2,3)] by blast
  have "ended res \<Longrightarrow> monitor_loop (Suc (Suc n)) lf s = Some (Inr (), s')"
    using c a assms(1) by simp
  moreover have "\<not> ended res \<Longrightarrow> monitor_loop (Suc n) lf s = monitor_loop n lf s'"
    using c assms(1) by simp
  ultimately show ?thesis
    using c a assms(1) by (auto simp: ended_iff)
qed

lemma in_call_ser: "ser (in_call script) = Some \<lparr>in_buf = [], written = []\<rparr>"
  by (simp add: in_call_def demo_ser)
lemma in_call_ticks: "ticks (in_call script) = script"
  by (simp add: in_call_def demo_ticks)
lemma in_call_active: "call_active (in_call script) = Some True"
  by (simp add: in_call_def)
lemma in_call_files: "files (in_call script) = []"
  by (simp add: in_call_def demo_files)

lemma read_incidental_quiet:
  "ser s = Some ch \<Longrightarrow> in_buf ch = [] \<Longrightarrow> read_incidental lf s = s"
  by (simp add: read_incidental_def)

lemma cpas_reply_text:
  "py_strip (decode ''+CPAS: 4'') = u ''+CPAS: 4''"
  "py_strip (decode ''+CPAS: 0'') = u ''+CPAS: 0''"
  "py_strip (decode ''0'') = u ''0''"
  by (simp_all add: py_strip_def decode_def u_def py_isspace_def)

lemma cpas_reply_zero:
  "48 \<notin> set (u ''+CPAS: 4'')" "48 \<in> set (u ''+CPAS: 0'')" "u ''+CPAS: 4'' \<noteq> []"
  by (simp_all add: u_def)

theorem monitor_cycle_hangup_detection_witness:
  "call_active (snd (monitor_cycle demo_log (in_call [Arrive ''+CPAS: 4'']))) = Some False \<and>
   monitor_loop (Suc (Suc 0)) demo_log (in_call [Arrive ''+CPAS: 4'']) =
     Some (Inr (), snd (monitor_cycle demo_log (in_call [Arrive ''+CPAS: 4'']))) \<and>
   call_active (snd (monitor_cycle demo_log (in_call [Arrive ''+CPAS: 0'']))) = Some True \<and>
   monitor_loop (Suc 0) demo_log (in_call [Arrive ''+CPAS: 0'']) = None"
proof -
  let ?a = "in_call [Arrive ''+CPAS: 4'']" and ?b = "in_call [Arrive ''+CPAS: 0'']"
  have ra: "read_incidental demo_log ?a = ?a" and rb: "read_incidental demo_log ?b = ?b"
    by (simp_all add: read_incidental_quiet[OF in_call_ser])
  have pa: "send_at (u ''AT+CPAS'') 500 (read_incidental demo_log ?a) =
      (Inr (Some (u ''+CPAS: 4'')), snd (send_at (u ''AT+CPAS'') 500 ?a))"
    by (simp add: ra send_at_connected[OF in_call_ser, of _ "''+CPAS: 4''" "[]"] in_call_ticks
        cpas_reply_text)
  have pb: "send_at (u ''AT+CPAS'') 500 (read_incidental demo_log ?b) =
      (Inr (Some (u ''+CPAS: 0'')), snd (send_at (u ''AT+CPAS'') 500 ?b))"
    by (simp add: rb send_at_connected[OF in_call_ser, of _ "''+CPAS: 0''" "[]"] in_call_ticks
        cpas_reply_text)
  have ta: "next_tick (ticks (snd (send_at (u ''AT+CPAS'') 500 ?a))) = (Arrive [], [])"
    by (simp add: send_at_connected[OF in_call_ser, of _ "''+CPAS: 4''" "[]"] in_call_ticks)
  have tb: "next_tick (ticks (snd (send_at (u ''AT+CPAS'') 500 ?b))) = (Arrive [], [])"
    by (simp add: send_at_connected[OF in_call_ser, of _ "''+CPAS: 0''" "[]"] in_call_ticks)
  show ?thesis
    using monitor_cycle_hangup_detection[OF in_call_active pa ta, of 0]
      monitor_cycle_hangup_detection[OF in_call_active pb tb, of 0]
    by (auto simp: cpas_reply_zero)
qed

section \<open>Leaving the monitor loop\<close>

lemma not_hangup_line:
  "msg_recording lf \<noteq> msg_hangup" "msg_conversation \<noteq> msg_hangup"
  "msg_remote_hangup \<noteq> msg_hangup" "msg_interrupted \<noteq> msg_hangup"
  "msg_not_connected \<noteq> msg_hangup" "msg_saved lf \<noteq> msg_hangup"
  "u ''  > '' @ x \<noteq> msg_hangup"
  by (simp_all add: msg_recording_def msg_conversation_def msg_remote_hangup_def
      msg_interrupted_def msg_not_connected_def msg_saved_def msg_hangup_def u_def)

lemma sleep_out [simp]: "out (snd (sleep ms s)) = out s"
  by (simp add: sleep_def Let_def split: prod.splits tick.splits)

lemma sleep_ser_None [simp]: "ser (snd (sleep ms s)) = None \<longleftrightarrow> ser s = None"
  by (simp add: sleep_def Let_def receive_def split: prod.splits tick.splits)

lemma send_at_hangups:
  "count_list (out (snd (send_at c w s))) msg_hangup = count_list (out s) msg_hangup"
  by (auto simp: send_at_def sleep_def Let_def py_print_def not_hangup_line
      split: option.splits prod.splits tick.splits sum.splits)

lemma send_at_ser_None [simp]: "ser (snd (send_at c w s)) = None \<longleftrightarrow> ser s = None"
  by (auto simp: send_at_def sleep_def Let_def py_print_def receive_def
      split: option.splits prod.splits tick.splits sum.splits)

lemma read_incidental_hangups [simp]:
  "count_list (out (read_incidental lf s)) msg_hangup = count_list (out s) msg_hangup"
  by (auto simp: read_incidental_def Let_def now_def py_print_def not_hangup_line
      split: option.splits)

lemma read_incidental_ser_None [simp]: "ser (read_incidental lf s) = None \<longleftrightarrow> ser s = None"
  by (auto simp: read_incidental_def Let_def now_def py_print_def split: option.splits)

lemma monitor_cycle_hangups:
  "count_list (out (snd (monitor_cycle lf s))) msg_hangup = count_list (out s) msg_hangup"
proof (cases "send_at (u ''AT+CPAS'') 500 (read_incidental lf s)")
  case (Pair r s1)
  have "count_list (out s1) msg_hangup = count_list (out s) msg_hangup"
    using send_at_hangups[of "u ''AT+CPAS''" 500 "read_incidental lf s"] Pair by simp
  then show ?thesis
    using Pair by (cases r) (simp_all add: monitor_cycle_def py_print_def not_hangup_line)
qed

lemma monitor_cycle_ser_None: "ser (snd (monitor_cycle lf s)) = None \<longleftrightarrow> ser s = None"
proof (cases "send_at (u ''AT+CPAS'') 500 (read_incidental lf s)")
  case (Pair r s1)
  have "ser s1 = None \<longleftrightarrow> ser s = None"
    using send_at_ser_None[of "u ''AT+CPAS''" 500 "read_incidental lf s"] Pair by simp
  then show ?thesis
    using Pair by (cases r) (simp_all add: monitor_cycle_def py_print_def)
qed

lemma monitor_loop_frame:
  "monitor_loop fuel lf s = Some (r, s') \<Longrightarrow>
   count_list (out s') msg_hangup = count_list (out s) msg_hangup \<and>
   (ser s' = None \<longleftrightarrow> ser s = None)"
proof (induction fuel arbitrary: s)
  case 0
  then show ?case by simp
next
  case (Suc n)
  show ?case
  proof (cases "call_active s")
    case None
    with Suc.prems show ?thesis by simp
  next
    case (Some b)
    show ?thesis
    proof (cases b)
      case False
      with Some Suc.prems show ?thesis by simp
    next
      case True
      obtain r1 s1 where c: "monitor_cycle lf s = (r1, s1)" by (cases "monitor_cycle lf s")
      have f: "count_list (out s1) msg_hangup = count_list (out s) msg_hangup"
        "ser s1 = None \<longleftrightarrow> ser s = None"
        using monitor_cycle_hangups[of lf s] monitor_cycle_ser_None[of lf s] c by simp_all
      show ?thesis
      proof (cases r1)
        case (Inl e)
        with Some True c Suc.prems f show ?thesis by auto
      next
        case (Inr x)
        with Some True c Suc.prems have "monitor_loop n lf s1 = Some (r, s')" by simp
        from Suc.IH[OF this] f show ?thesis by simp
      qed
    qed
  qed
qed

lemma hangup_hangups:
  "count_list (out (snd (hangup s))) msg_hangup = Suc (count_list (out s) msg_hangup)"
proof -
  obtain r s1 where c: "send_at (u ''ATH'') 1000 (py_print msg_hangup s) = (r, s1)"
    by (cases "send_at (u ''ATH'') 1000 (py_print msg_hangup s)")
  have "count_list (out s1) msg_hangup = Suc (count_list (out s) msg_hangup)"
    using send_at_hangups[of "u ''ATH''" 1000 "py_print msg_hangup s"] c by simp
  then show ?thesis
    using c by (cases r) (simp_all add: hangup_def Let_def split: option.splits)
qed

lemma send_at_dead:
  "ser s = Some ch \<Longrightarrow> fst (next_tick (ticks s)) = Dead \<Longrightarrow>
   send_at cmd w s = (Inl SerialException, s)"
  by (simp add: send_at_def)

lemma not_saved_line:
  "msg_hangup \<noteq> msg_saved lf" "msg_not_connected \<noteq> msg_saved lf"
  by (simp_all add: msg_hangup_def msg_not_connected_def msg_saved_def)

lemma hangup_returns_iff: "(\<exists>b. fst (hangup s) = Inr b) \<longleftrightarrow> port_answers s"
proof (cases "ser s")
  case None
  then show ?thesis by (simp add: hangup_unconnected port_answers_def)
next
  case (Some ch)
  obtain t ts where nt: "next_tick (ticks s) = (t, ts)" by (cases "next_tick (ticks s)")
  show ?thesis
  proof (cases t)
    case (Arrive bs)
    then show ?thesis
      using hangup_connected[OF Some, of bs ts] nt by (simp add: port_answers_def Some)
  next
    case Interrupt
    then show ?thesis
      using send_at_interrupt[of "py_print msg_hangup s" ch ts "u ''ATH''" 1000] Some nt
      by (simp add: hangup_def port_answers_def)
  next
    case Dead
    then show ?thesis
      using send_at_dead[of "py_print msg_hangup s" ch "u ''ATH''" 1000] Some nt
      by (simp add: hangup_def port_answers_def)
  qed
qed

lemma hangup_raises_last:
  assumes "\<not> port_answers s"
  shows "last (out (snd (hangup s))) \<noteq> msg_saved lf"
proof (cases "ser s")
  case None
  then show ?thesis by (simp add: hangup_unconnected not_saved_line)
next
  case (Some ch)
  obtain t ts where nt: "next_tick (ticks s) = (t, ts)" by (cases "next_tick (ticks s)")
  show ?thesis
  proof (cases t)
    case (Arrive bs)
    then show ?thesis using assms nt Some by (simp add: port_answers_def)
  next
    case Interrupt
    then show ?thesis
      using send_at_interrupt[of "py_print msg_hangup s" ch ts "u ''ATH''" 1000] Some nt
      by (simp add: hangup_def py_print_def not_saved_line)
  next
    case Dead
    then show ?thesis
      using send_at_dead[of "py_print msg_hangup s" ch "u ''ATH''" 1000] Some nt
      by (simp add: hangup_def py_print_def not_saved_line)
  qed
qed

text \<open>
  C8, as the code has it.  \<open>hangup\<close> prints its banner when it is entered and nothing else
  prints that line, so the banner counts the invocations.  Whenever the loop ends, with
  whatever outcome \<open>r1\<close> (the flag was cleared, the operator interrupted, or an error was
  raised in the loop, such as a write to a dead port), \<open>_monitor_call\<close> ends too, and
  \<open>hangup\<close> was invoked exactly once.  The location of the log is then the last line
  printed exactly when that \<open>hangup\<close> returns, which it does exactly when there is a
  channel, the port is not dead and the settle wait is not interrupted; when \<open>hangup\<close>
  raises, its error leaves the \<open>finally\<close> block and the location line is skipped.
\<close>

theorem monitor_call_exit:
  assumes "monitor_loop fuel lf (py_print msg_conversation (py_print (msg_recording lf) s)) =
             Some (r1, s1)"
    and "s2 = (if r1 = Inl KeyboardInterrupt then py_print msg_interrupted s1 else s1)"
  shows "\<exists>r s'. monitor_call fuel lf number call_type s = Some (r, s') \<and>
           count_list (out s') msg_hangup = Suc (count_list (out s) msg_hangup) \<and>
           (last (out s') = msg_saved lf \<longleftrightarrow> port_answers s2) \<and>
           ((\<exists>b. fst (hangup s2) = Inr b) \<longleftrightarrow> port_answers s2) \<and>
           r = (case fst (hangup s2) of
                  Inl e \<Rightarrow> Inl e
                | Inr b \<Rightarrow> if r1 = Inl KeyboardInterrupt then Inr () else r1)"
proof -
  have f1: "count_list (out s1) msg_hangup = count_list (out s) msg_hangup"
    using monitor_loop_frame[OF assms(1)] by (simp add: not_hangup_line)
  have f2: "count_list (out s2) msg_hangup = count_list (out s) msg_hangup"
    using f1 by (simp add: assms(2) not_hangup_line)
  obtain rh s3 where h: "hangup s2 = (rh, s3)" by (cases "hangup s2")
  have f3: "count_list (out s3) msg_hangup = Suc (count_list (out s) msg_hangup)"
    using hangup_hangups[of s2] h f2 by simp
  define r where "r = (case rh of Inl e \<Rightarrow> Inl e
      | Inr b \<Rightarrow> if r1 = Inl KeyboardInterrupt then Inr () else r1)"
  define s' where "s' = (case rh of Inl e \<Rightarrow> s3 | Inr b \<Rightarrow> py_print (msg_saved lf) s3)"
  have m: "monitor_call fuel lf number call_type s = Some (r, s')"
    using assms h by (cases rh) (simp_all add: monitor_call_def r_def s'_def)
  have count: "count_list (out s') msg_hangup = Suc (count_list (out s) msg_hangup)"
    using f3 by (cases rh) (simp_all add: s'_def not_hangup_line)
  have ret: "(\<exists>b. rh = Inr b) \<longleftrightarrow> port_answers s2"
    using hangup_returns_iff[of s2] h by simp
  have loc: "last (out s') = msg_saved lf \<longleftrightarrow> port_answers s2"
  proof (cases rh)
    case (Inl e)
    then have "\<not> port_answers s2" using ret by auto
    from hangup_raises_last[OF this, of lf] h Inl show ?thesis
      using ret by (simp add: s'_def)
  next
    case (Inr b)
    then show ?thesis using ret by (simp add: s'_def)
  qed
  have "r = (case fst (hangup s2) of Inl e \<Rightarrow> Inl e
      | Inr b \<Rightarrow> if r1 = Inl KeyboardInterrupt then Inr () else r1)"
    using h by (simp add: r_def)
  with m count loc hangup_returns_iff[of s2] show ?thesis by blast
qed

section \<open>A scripted call\<close>

lemma monitor_cycle_quiet:
  assumes "ser s = Some ch" and "in_buf ch = []" and "ticks s = Arrive b # Arrive b2 # ts"
  shows "monitor_cycle lf s =
     (Inr (),
      (if ended (Some (py_strip (decode b)))
       then (py_print msg_remote_hangup s)\<lparr>call_active := Some False\<rparr> else s)
      \<lparr>sleeps := sleeps s @ [500, 500], ticks := ts,
        ser := Some (ch\<lparr>written := written ch @ [u ''AT+CPAS'' @ [13, 10]], in_buf := b2\<rparr>)\<rparr>)"
proof -
  have r: "read_incidental lf s = s"
    using assms(1,2) by (simp add: read_incidental_def)
  have p: "send_at (u ''AT+CPAS'') 500 s =
     (Inr (Some (py_strip (decode b))),
      s\<lparr>sleeps := sleeps s @ [500], ticks := Arrive b2 # ts,
        ser := Some (ch\<lparr>written := written ch @ [u ''AT+CPAS'' @ [13, 10]], in_buf := []\<rparr>)\<rparr>)"
    using send_at_connected[OF assms(1), of b "Arrive b2 # ts" "u ''AT+CPAS''" 500] assms(2,3)
    by simp
  show ?thesis
    by (simp add: monitor_cycle_def r p sleep_def Let_def receive_def py_print_def)
qed

lemma zero_reply: "\<not> ended (Some (py_strip (decode ''0'')))"
  by (simp add: ended_def py_strip_def decode_def u_def py_isspace_def starts_with_def)

lemma idle_polls_then_end:
  assumes "ser s = Some ch" and "in_buf ch = []" and "call_active s = Some True"
    and "ticks s = [Arrive ''0'', Arrive [], Arrive ''0'', Arrive [], Arrive ''0'', Arrive [],
                    Arrive r, Arrive [], Arrive h] @ rest"
    and "py_strip (decode r) \<noteq> []" and "48 \<notin> set (py_strip (decode r))"
  shows "call_active (snd (monitor_cycle lf s)) = Some True \<and>
     call_active (snd (monitor_cycle lf (snd (monitor_cycle lf s)))) = Some True \<and>
     call_active (snd (monitor_cycle lf (snd (monitor_cycle lf (snd (monitor_cycle lf s)))))) =
       Some True \<and>
     call_active (snd (monitor_cycle lf (snd (monitor_cycle lf (snd (monitor_cycle lf
       (snd (monitor_cycle lf s)))))))) = Some False \<and>
     monitor_loop (Suc (Suc (Suc (Suc 0)))) lf s = None \<and>
     monitor_loop (Suc (Suc (Suc (Suc (Suc n))))) lf s =
     Some (Inr (), s\<lparr>sleeps := sleeps s @ [500, 500, 500, 500, 500, 500, 500, 500],
        ticks := Arrive h # rest,
        ser := Some (ch\<lparr>written := written ch @ replicate 4 (u ''AT+CPAS'' @ [13, 10]), in_buf := []\<rparr>),
        out := out s @ [msg_remote_hangup], call_active := Some False\<rparr>)"
proof -
  define cp where "cp = u ''AT+CPAS'' @ [13, 10]"
  define s1 where "s1 = s\<lparr>sleeps := sleeps s @ [500, 500],
      ticks := [Arrive ''0'', Arrive [], Arrive ''0'', Arrive [], Arrive r, Arrive [], Arrive h] @ rest,
      ser := Some (ch\<lparr>written := written ch @ [cp], in_buf := []\<rparr>)\<rparr>"
  define s2 where "s2 = s\<lparr>sleeps := sleeps s @ [500, 500, 500, 500],
      ticks := [Arrive ''0'', Arrive [], Arrive r, Arrive [], Arrive h] @ rest,
      ser := Some (ch\<lparr>written := written ch @ [cp, cp], in_buf := []\<rparr>)\<rparr>"
  define s3 where "s3 = s\<lparr>sleeps := sleeps s @ [500, 500, 500, 500, 500, 500],
      ticks := [Arrive r, Arrive [], Arrive h] @ rest,
      ser := Some (ch\<lparr>written := written ch @ [cp, cp, cp], in_buf := []\<rparr>)\<rparr>"
  define s4 where "s4 = s\<lparr>sleeps := sleeps s @ [500, 500, 500, 500, 500, 500, 500, 500],
      ticks := Arrive h # rest,
      ser := Some (ch\<lparr>written := written ch @ [cp, cp, cp, cp], in_buf := []\<rparr>),
      out := out s @ [msg_remote_hangup], call_active := Some False\<rparr>"
  have e: "ended (Some (py_strip (decode r)))"
    using assms(5,6) by (simp add: ended_iff)
  have c1: "monitor_cycle lf s = (Inr (), s1)"
    using monitor_cycle_quiet[OF assms(1,2), of "''0''" "[]" _ lf] assms(4)
    by (simp add: zero_reply s1_def cp_def)
  have c2: "monitor_cycle lf s1 = (Inr (), s2)"
    using monitor_cycle_quiet[of s1 "ch\<lparr>written := written ch @ [cp], in_buf := []\<rparr>" "''0''" "[]" _ lf]
    by (simp add: zero_reply s1_def s2_def cp_def)
  have c3: "monitor_cycle lf s2 = (Inr (), s3)"
    using monitor_cycle_quiet[of s2 "ch\<lparr>written := written ch @ [cp, cp], in_buf := []\<rparr>" "''0''" "[]" _ lf]
    by (simp add: zero_reply s2_def s3_def cp_def)
  have c4: "monitor_cycle lf s3 = (Inr (), s4)"
    using monitor_cycle_quiet[of s3 "ch\<lparr>written := written ch @ [cp, cp, cp], in_buf := []\<rparr>" r "[]" _ lf] e
    by (simp add: s3_def s4_def cp_def py_print_def)
  have a: "call_active s1 = Some True" "call_active s2 = Some True" "call_active s3 = Some True"
    "call_active s4 = Some False"
    using assms(3) by (simp_all add: s1_def s2_def s3_def s4_def)
  have l: "monitor_loop (Suc (Suc (Suc (Suc (Suc n))))) lf s = Some (Inr (), s4)"
    and l4: "monitor_loop (Suc (Suc (Suc (Suc 0)))) lf s = None"
    using c1 c2 c3 c4 a assms(3) by simp_all
  have s4: "s4 = s\<lparr>sleeps := sleeps s @ [500, 500, 500, 500, 500, 500, 500, 500],
        ticks := Arrive h # rest,
        ser := Some (ch\<lparr>written := written ch @ replicate 4 (u ''AT+CPAS'' @ [13, 10]), in_buf := []\<rparr>),
        out := out s @ [msg_remote_hangup], call_active := Some False\<rparr>"
    by (simp add: s4_def cp_def numeral_eq_Suc)
  show ?thesis
    using c1 c2 c3 c4 a l l4 unfolding s4 by simp
qed

text \<open>
  C2.  The session is connected with nothing buffered, the flag is set, and the script
  answers the first three polls with \<open>0\<close> and the fourth with a non-blank text without
  \<open>0\<close>; nothing arrives between polls, and the settle wait of the final \<open>ATH\<close> is not
  interrupted.  Then three cycles run and leave the call active, and the fourth cycle ends
  it: the loop is still running after four tests of its condition and has returned at the
  fifth.  In all, \<open>AT+CPAS\<close> was written four times and then \<open>ATH\<close> once, and \<open>hangup\<close>
  was invoked exactly once, followed by the location line.
\<close>

theorem monitor_three_idle_polls:
  assumes "ser s = Some ch" and "in_buf ch = []" and "call_active s = Some True"
    and "ticks s = [Arrive ''0'', Arrive [], Arrive ''0'', Arrive [], Arrive ''0'', Arrive [],
                    Arrive r, Arrive [], Arrive h] @ rest"
    and "py_strip (decode r) \<noteq> []" and "48 \<notin> set (py_strip (decode r))"
    and "s0 = py_print msg_conversation (py_print (msg_recording lf) s)"
  shows "call_active (snd (monitor_cycle lf s0)) = Some True \<and>
     call_active (snd (monitor_cycle lf (snd (monitor_cycle lf s0)))) = Some True \<and>
     call_active (snd (monitor_cycle lf (snd (monitor_cycle lf (snd (monitor_cycle lf s0)))))) =
       Some True \<and>
     call_active (snd (monitor_cycle lf (snd (monitor_cycle lf (snd (monitor_cycle lf
       (snd (monitor_cycle lf s0)))))))) = Some False \<and>
     monitor_call (Suc (Suc (Suc (Suc 0)))) lf number call_type s = None \<and>
     (\<exists>s'. monitor_call (Suc (Suc (Suc (Suc (Suc n))))) lf number call_type s = Some (Inr (), s') \<and>
        ser s' = Some (ch\<lparr>written := written ch @
                  replicate 4 (u ''AT+CPAS'' @ [13, 10]) @ [u ''ATH'' @ [13, 10]], in_buf := []\<rparr>) \<and>
        out s' = out s @ [msg_recording lf, msg_conversation, msg_remote_hangup, msg_hangup,
                          msg_saved lf] \<and>
        count_list (out s') msg_hangup = Suc (count_list (out s) msg_hangup) \<and>
        call_active s' = Some False \<and> ticks s' = rest)"
proof -
  have p: "ser s0 = Some ch" "call_active s0 = Some True"
    "ticks s0 = [Arrive ''0'', Arrive [], Arrive ''0'', Arrive [], Arrive ''0'', Arrive [],
                 Arrive r, Arrive [], Arrive h] @ rest"
    using assms(1,3,4) by (simp_all add: assms(7))
  note t = idle_polls_then_end[OF p(1) assms(2) p(2) p(3) assms(5,6), of lf]
  define s4 where "s4 = s0\<lparr>sleeps := sleeps s0 @ [500, 500, 500, 500, 500, 500, 500, 500],
        ticks := Arrive h # rest,
        ser := Some (ch\<lparr>written := written ch @ replicate 4 (u ''AT+CPAS'' @ [13, 10]), in_buf := []\<rparr>),
        out := out s0 @ [msg_remote_hangup], call_active := Some False\<rparr>"
  have l: "monitor_loop (Suc (Suc (Suc (Suc (Suc n))))) lf s0 = Some (Inr (), s4)"
    using t[of n] by (simp add: s4_def)
  have h: "hangup s4 = (Inr (py_in (u ''OK'') (py_strip (decode h))),
      (py_print msg_hangup s4)\<lparr>sleeps := sleeps s4 @ [1000], ticks := rest,
        ser := Some (ch\<lparr>written := written ch @ replicate 4 (u ''AT+CPAS'' @ [13, 10])
                       @ [u ''ATH'' @ [13, 10]], in_buf := []\<rparr>),
        call_active := Some False\<rparr>)"
    using hangup_connected[of s4 "ch\<lparr>written := written ch @ replicate 4 (u ''AT+CPAS'' @ [13, 10]), in_buf := []\<rparr>" h rest]
    by (simp add: s4_def)
  have m: "\<exists>s'. monitor_call (Suc (Suc (Suc (Suc (Suc n))))) lf number call_type s = Some (Inr (), s') \<and>
        ser s' = Some (ch\<lparr>written := written ch @
                  replicate 4 (u ''AT+CPAS'' @ [13, 10]) @ [u ''ATH'' @ [13, 10]], in_buf := []\<rparr>) \<and>
        out s' = out s @ [msg_recording lf, msg_conversation, msg_remote_hangup, msg_hangup,
                          msg_saved lf] \<and>
        count_list (out s') msg_hangup = Suc (count_list (out s) msg_hangup) \<and>
        call_active s' = Some False \<and> ticks s' = rest"
    using l h unfolding monitor_call_def assms(7)[symmetric]
    by (simp add: s4_def assms(7) not_hangup_line)
  have n: "monitor_call (Suc (Suc (Suc (Suc 0)))) lf number call_type s = None"
    using t[of 0] unfolding monitor_call_def assms(7)[symmetric] by simp
  show ?thesis using t[of 0] m n by simp
qed

section \<open>Concrete runs\<close>

lemmas session_defs = in_call_def demo_session_def connect_def unconnected_session_def
  new_controller_def demo_clock_def

lemmas run_defs = monitor_call_def monitor_cycle_def read_incidental_def send_at_def sleep_def
  hangup_def py_print_def now_def receive_def ended_def Let_def

theorem monitor_three_idle_polls_witness:
  "monitor_call (Suc (Suc (Suc (Suc 0)))) demo_log (u ''incoming'') (u ''incoming'')
     (in_call [Arrive ''0'', Arrive [], Arrive ''0'', Arrive [], Arrive ''0'', Arrive [],
               Arrive ''+CPAS: 4'', Arrive [], Arrive ''OK'']) = None \<and>
   (\<exists>s'. monitor_call (Suc (Suc (Suc (Suc (Suc 0))))) demo_log (u ''incoming'') (u ''incoming'')
     (in_call [Arrive ''0'', Arrive [], Arrive ''0'', Arrive [], Arrive ''0'', Arrive [],
               Arrive ''+CPAS: 4'', Arrive [], Arrive ''OK'']) = Some (Inr (), s') \<and>
     ser s' = Some \<lparr>in_buf = [],
                written = replicate 4 (u ''AT+CPAS'' @ [13, 10]) @ [u ''ATH'' @ [13, 10]]\<rparr> \<and>
     count_list (out s') msg_hangup =
       Suc (count_list (out (in_call [Arrive ''0'', Arrive [], Arrive ''0'', Arrive [],
               Arrive ''0'', Arrive [], Arrive ''+CPAS: 4'', Arrive [], Arrive ''OK''])) msg_hangup) \<and>
     call_active s' = Some False)"
proof -
  let ?s = "in_call [Arrive ''0'', Arrive [], Arrive ''0'', Arrive [], Arrive ''0'', Arrive [],
               Arrive ''+CPAS: 4'', Arrive [], Arrive ''OK'']"
  have b: "in_buf \<lparr>in_buf = [], written = []\<rparr> = []" by simp
  have t: "ticks ?s = [Arrive ''0'', Arrive [], Arrive ''0'', Arrive [], Arrive ''0'', Arrive [],
               Arrive ''+CPAS: 4'', Arrive [], Arrive ''OK''] @ []"
    by (simp add: in_call_ticks)
  have r: "py_strip (decode ''+CPAS: 4'') \<noteq> []" "48 \<notin> set (py_strip (decode ''+CPAS: 4''))"
    by (simp_all add: cpas_reply_text cpas_reply_zero)
  from monitor_three_idle_polls[OF in_call_ser b in_call_active t r refl,
      of demo_log "u ''incoming''" "u ''incoming''" 0]
  show ?thesis by auto
qed

theorem monitor_call_exit_witness:
  "(\<exists>s'. monitor_call (Suc (Suc 0)) demo_log (u ''incoming'') (u ''incoming'')
          (in_call [Arrive ''+CPAS: 4'', Arrive [], Arrive ''OK'']) = Some (Inr (), s') \<and>
        count_list (out s') msg_hangup =
          Suc (count_list (out (in_call [Arrive ''+CPAS: 4'', Arrive [], Arrive ''OK''])) msg_hangup) \<and>
        last (out s') = msg_saved demo_log) \<and>
   (\<exists>s'. monitor_call (Suc 0) demo_log (u ''incoming'') (u ''incoming'')
          (in_call [Interrupt, Arrive ''OK'']) = Some (Inr (), s') \<and>
        count_list (out s') msg_hangup =
          Suc (count_list (out (in_call [Interrupt, Arrive ''OK''])) msg_hangup) \<and>
        last (out s') = msg_saved demo_log) \<and>
   (\<exists>s'. monitor_call (Suc 0) demo_log (u ''incoming'') (u ''incoming'')
          (in_call [Dead]) = Some (Inl SerialException, s') \<and>
        count_list (out s') msg_hangup = Suc (count_list (out (in_call [Dead])) msg_hangup) \<and>
        last (out s') \<noteq> msg_saved demo_log)"
proof -
  let ?a = "in_call [Arrive ''+CPAS: 4'', Arrive [], Arrive ''OK'']"
  let ?b = "in_call [Interrupt, Arrive ''OK'']"
  let ?c = "in_call [Dead]"
  let ?e = "\<lambda>s. py_print msg_conversation (py_print (msg_recording demo_log) s)"
  have "map_option fst (monitor_loop (Suc (Suc 0)) demo_log (?e ?a)) = Some (Inr ())"
    by (simp add: session_defs run_defs py_strip_def decode_def u_def py_isspace_def
        starts_with_def)
  then obtain a1 where la: "monitor_loop (Suc (Suc 0)) demo_log (?e ?a) = Some (Inr (), a1)"
    by auto
  have "map_option fst (monitor_loop (Suc 0) demo_log (?e ?b)) = Some (Inl KeyboardInterrupt)"
    by (simp add: session_defs run_defs)
  then obtain b1 where lb:
    "monitor_loop (Suc 0) demo_log (?e ?b) = Some (Inl KeyboardInterrupt, b1)"
    by auto
  have "map_option fst (monitor_loop (Suc 0) demo_log (?e ?c)) = Some (Inl SerialException)"
    by (simp add: session_defs run_defs)
  then obtain c1 where lc:
    "monitor_loop (Suc 0) demo_log (?e ?c) = Some (Inl SerialException, c1)"
    by auto
  have ea: "map_option fst (monitor_call (Suc (Suc 0)) demo_log (u ''incoming'') (u ''incoming'') ?a)
        = Some (Inr ())"
    "map_option (last \<circ> out \<circ> snd)
        (monitor_call (Suc (Suc 0)) demo_log (u ''incoming'') (u ''incoming'') ?a)
        = Some (msg_saved demo_log)"
    by (simp_all add: session_defs run_defs py_strip_def decode_def u_def py_isspace_def
        starts_with_def)
  have eb: "map_option fst (monitor_call (Suc 0) demo_log (u ''incoming'') (u ''incoming'') ?b)
        = Some (Inr ())"
    "map_option (last \<circ> out \<circ> snd)
        (monitor_call (Suc 0) demo_log (u ''incoming'') (u ''incoming'') ?b)
        = Some (msg_saved demo_log)"
    by (simp_all add: session_defs run_defs py_strip_def decode_def u_def py_isspace_def
        starts_with_def)
  have ec: "map_option fst (monitor_call (Suc 0) demo_log (u ''incoming'') (u ''incoming'') ?c)
        = Some (Inl SerialException)"
    "map_option (last \<circ> out \<circ> snd)
        (monitor_call (Suc 0) demo_log (u ''incoming'') (u ''incoming'') ?c)
        = Some msg_hangup"
    by (simp_all add: session_defs run_defs)
  from monitor_call_exit[OF la refl, of "u ''incoming''" "u ''incoming''"] ea
  have A: "\<exists>s'. monitor_call (Suc (Suc 0)) demo_log (u ''incoming'') (u ''incoming'') ?a
          = Some (Inr (), s') \<and>
        count_list (out s') msg_hangup = Suc (count_list (out ?a) msg_hangup) \<and>
        last (out s') = msg_saved demo_log"
    by auto
  from monitor_call_exit[OF lb refl, of "u ''incoming''" "u ''incoming''"] eb
  have B: "\<exists>s'. monitor_call (Suc 0) demo_log (u ''incoming'') (u ''incoming'') ?b
          = Some (Inr (), s') \<and>
        count_list (out s') msg_hangup = Suc (count_list (out ?b) msg_hangup) \<and>
        last (out s') = msg_saved demo_log"
    by auto
  from monitor_call_exit[OF lc refl, of "u ''incoming''" "u ''incoming''"] ec
    not_saved_line(1)[of demo_log]
  have C: "\<exists>s'. monitor_call (Suc 0) demo_log (u ''incoming'') (u ''incoming'') ?c
          = Some (Inl SerialException, s') \<and>
        count_list (out s') msg_hangup = Suc (count_list (out ?c) msg_hangup) \<and>
        last (out s') \<noteq> msg_saved demo_log"
    by auto
  from A B C show ?thesis by blast
qed

text \<open>
  The operator interrupts the first poll and interrupts again during the settle wait of the
  \<open>ATH\<close> that the \<open>finally\<close> block sends: \<open>hangup\<close> was invoked, its banner is the last
  line printed, the interrupt leaves \<open>_monitor_call\<close>, and the location of the log is not
  reported.
\<close>

theorem monitor_call_interrupted_hangup_counterexample:
  "ser (in_call [Interrupt, Interrupt]) \<noteq> None \<and>
   map_option fst (monitor_call (Suc 0) demo_log (u ''incoming'') (u ''incoming'')
       (in_call [Interrupt, Interrupt])) = Some (Inl KeyboardInterrupt) \<and>
   map_option (out \<circ> snd) (monitor_call (Suc 0) demo_log (u ''incoming'') (u ''incoming'')
       (in_call [Interrupt, Interrupt])) =
     Some (out (in_call [Interrupt, Interrupt]) @
           [msg_recording demo_log, msg_conversation, msg_interrupted, msg_hangup]) \<and>
   msg_hangup \<noteq> msg_saved demo_log"
  using not_hangup_line(6)[of demo_log]
  by (simp add: session_defs run_defs)

section \<open>The log store during a call\<close>


lemma send_at_files [simp]: "files (snd (send_at c w s)) = files s"
  by (auto simp: send_at_def sleep_def Let_def py_print_def
      split: option.splits prod.splits tick.splits sum.splits)

lemma hangup_files [simp]: "files (snd (hangup s)) = files s"
proof -
  obtain r s1 where c: "send_at (u ''ATH'') 1000 (py_print msg_hangup s) = (r, s1)"
    by (cases "send_at (u ''ATH'') 1000 (py_print msg_hangup s)")
  have "files s1 = files s"
    using send_at_files[of "u ''ATH''" 1000 "py_print msg_hangup s"] c by simp
  then show ?thesis
    using c by (cases r) (simp_all add: hangup_def Let_def split: option.splits)
qed















section \<open>A successful dial\<close>


lemma create_log_file_refused:
  assumes "open_error (call_type @ u ''_'' @ number @ u ''_'' @ compact (clock s (clock_reads s))
      @ u ''.txt'') = Some e"
  shows "create_log_file call_type number s = (Inl e, s\<lparr>clock_reads := clock_reads s + 1\<rparr>)"
  using assms by (simp add: create_log_file_def now_def Let_def)




lemmas call_defs = make_call_def answer_call_def create_log_file_def





section \<open>Answering a call\<close>

text \<open>
  C4, on the code.  The modem answers \<open>ATA\<close> with \<open>OK\<close> and the remote party hangs up at
  the first poll: \<open>answer_call\<close> returns \<open>True\<close> and reports the log as saved, but the
  store is still empty; no file was created and no header written.  When \<open>RING\<close> arrives
  during the call, the log is created by the first append and holds that one line only.
\<close>

theorem answer_call_writes_no_header:
  "map_option fst (answer_call (Suc (Suc 0))
      (demo_session [Arrive ''OK'', Arrive ''+CPAS: 4'', Arrive [], Arrive ''OK''])) =
     Some (Inr True) \<and>
   map_option (files \<circ> snd) (answer_call (Suc (Suc 0))
      (demo_session [Arrive ''OK'', Arrive ''+CPAS: 4'', Arrive [], Arrive ''OK''])) = Some [] \<and>
   map_option (last \<circ> out \<circ> snd) (answer_call (Suc (Suc 0))
      (demo_session [Arrive ''OK'', Arrive ''+CPAS: 4'', Arrive [], Arrive ''OK''])) =
     Some (msg_saved demo_log) \<and>
   map_option (files \<circ> snd) (answer_call (Suc (Suc (Suc 0)))
      (demo_session [Arrive ''OK'', Arrive ''+CPAS: 0'', Arrive ''RING'', Arrive ''+CPAS: 4'',
                     Arrive [], Arrive ''OK''])) =
     Some [(demo_log, u ''[12:00:00] RING'' @ [10])]"
  by (simp add: session_defs run_defs call_defs py_strip_def decode_def u_def py_isspace_def
      starts_with_def demo_log_def)

section \<open>Listing\<close>

lemma file_line_facts:
  "starts_with [10, 0x1F4C4, 32] (msg_file name)"
  "\<not> starts_with [10, 0x1F4C4, 32] (msg_line l)"
  "\<not> starts_with [10, 0x1F4C4, 32] msg_logs_title"
  "\<not> starts_with [10, 0x1F4C4, 32] msg_no_logs"
  by (simp_all add: starts_with_def msg_file_def msg_line_def msg_logs_title_def msg_no_logs_def
      u_def)

lemma show_logs_result:
  "fst (show_logs logs s) =
     (if list_ex (\<lambda>p. length (readlines (snd p)) = 1) logs then Inl IndexError else Inr ())"
proof (induction logs arbitrary: s)
  case Nil
  then show ?case by simp
next
  case (Cons p logs)
  obtain name content where p: "p = (name, content)" by (cases p)
  show ?case
  proof (cases "readlines content")
    case Nil
    then show ?thesis using Cons.IH p by simp
  next
    case (Cons l0 ls)
    then show ?thesis using Cons.IH p by (cases ls) simp_all
  qed
qed

lemma show_logs_listed:
  "\<exists>k\<le>length logs.
     filter (starts_with [10, 0x1F4C4, 32]) (out (snd (show_logs logs s))) =
     filter (starts_with [10, 0x1F4C4, 32]) (out s) @ map (\<lambda>p. msg_file (fst p)) (take k logs)"
proof (induction logs arbitrary: s)
  case Nil
  then show ?case by simp
next
  case (Cons p logs)
  obtain name content where p: "p = (name, content)" by (cases p)
  let ?F = "filter (starts_with [10, 0x1F4C4, 32])"
  have step: "\<exists>k\<le>length (p # logs).
      ?F (out (snd (show_logs logs s1))) = ?F (out s) @ map (\<lambda>p. msg_file (fst p)) (take k (p # logs))"
    if "?F (out s1) = ?F (out s) @ [msg_file name]" for s1
  proof -
    obtain k where "k \<le> length logs"
      "?F (out (snd (show_logs logs s1))) = ?F (out s1) @ map (\<lambda>p. msg_file (fst p)) (take k logs)"
      using Cons.IH[of s1] by blast
    then have "Suc k \<le> length (p # logs) \<and>
        ?F (out (snd (show_logs logs s1))) =
          ?F (out s) @ map (\<lambda>p. msg_file (fst p)) (take (Suc k) (p # logs))"
      using that p by simp
    then show ?thesis by blast
  qed
  show ?case
  proof (cases "readlines content")
    case Nil
    then show ?thesis using p step[of "py_print (msg_file name) s"] by (simp add: file_line_facts)
  next
    case (Cons l0 ls)
    show ?thesis
    proof (cases ls)
      case Nil
      have "Suc 0 \<le> length (p # logs) \<and>
          ?F (out (snd (show_logs (p # logs) s))) =
            ?F (out s) @ map (\<lambda>p. msg_file (fst p)) (take (Suc 0) (p # logs))"
        using p Cons Nil by (simp add: file_line_facts)
      then show ?thesis by blast
    next
      case (Cons l1 ls')
      then show ?thesis
        using p \<open>readlines content = l0 # ls\<close>
          step[of "py_print (msg_line l1) (py_print (msg_line l0) (py_print (msg_file name) s))"]
        by (simp add: file_line_facts)
    qed
  qed
qed

lemma recent_logs_py_print [simp]: "recent_logs (py_print l s) = recent_logs s"
  by (simp add: recent_logs_def py_print_def)

lemma recent_logs_sorted:
  "sorted (rev (map (\<lambda>p. getmtime s (fst p)) (recent_logs s)))"
proof -
  have "sorted (map (\<lambda>p. getmtime s (fst p))
      (sort_key (\<lambda>p. getmtime s (fst p)) (rev (filter (\<lambda>p. is_txt (fst p)) (files s)))))"
    by (rule sorted_sort_key)
  then show ?thesis
    by (simp add: recent_logs_def split_def rev_map)
qed

lemma recent_logs_set: "set (recent_logs s) = {p \<in> set (files s). is_txt (fst p)}"
  by (auto simp: recent_logs_def)

text \<open>
  C10, as the code has it.  The files taken are the \<open>.txt\<close> files of the directory, most
  recently modified first, and only the first ten of them are opened: the names shown are
  those of the first \<open>k\<close> of them for some \<open>k\<close> up to ten.  The listing raises
  \<open>IndexError\<close> exactly when one of these first ten has exactly one line, and completes
  otherwise.
\<close>

theorem list_call_logs_recent_ten:
  "fst (list_call_logs s) =
     (if list_ex (\<lambda>p. length (readlines (snd p)) = 1) (take 10 (recent_logs s))
      then Inl IndexError else Inr ()) \<and>
   (\<exists>k\<le>10.
      filter (starts_with [10, 0x1F4C4, 32]) (out (snd (list_call_logs s))) =
      filter (starts_with [10, 0x1F4C4, 32]) (out s) @
        map (\<lambda>p. msg_file (fst p)) (take k (recent_logs s))) \<and>
   sorted (rev (map (\<lambda>p. getmtime s (fst p)) (recent_logs s))) \<and>
   set (recent_logs s) = {p \<in> set (files s). is_txt (fst p)}"
proof -
  let ?F = "filter (starts_with [10, 0x1F4C4, 32])"
  let ?s1 = "py_print msg_logs_title s"
  let ?L = "recent_logs s"
  have r: "fst (list_call_logs s) =
     (if list_ex (\<lambda>p. length (readlines (snd p)) = 1) (take 10 ?L)
      then Inl IndexError else Inr ())"
    by (simp add: list_call_logs_def Let_def show_logs_result)
  have l: "\<exists>k\<le>10. ?F (out (snd (list_call_logs s))) = ?F (out s) @ map (\<lambda>p. msg_file (fst p)) (take k ?L)"
  proof (cases "?L = []")
    case True
    then have "?F (out (snd (list_call_logs s))) = ?F (out s) @ map (\<lambda>p. msg_file (fst p)) (take 0 ?L)"
      by (simp add: list_call_logs_def Let_def file_line_facts)
    then show ?thesis by blast
  next
    case False
    obtain k where k: "k \<le> length (take 10 ?L)"
      "?F (out (snd (show_logs (take 10 ?L) ?s1))) =
         ?F (out ?s1) @ map (\<lambda>p. msg_file (fst p)) (take k (take 10 ?L))"
      using show_logs_listed[of "take 10 ?L" ?s1] by blast
    have "k \<le> 10" using k(1) by simp
    moreover have "take k (take 10 ?L) = take k ?L" using \<open>k \<le> 10\<close> by (simp add: min_def)
    ultimately have "k \<le> 10 \<and>
        ?F (out (snd (list_call_logs s))) = ?F (out s) @ map (\<lambda>p. msg_file (fst p)) (take k ?L)"
      using k(2) False by (simp add: list_call_logs_def Let_def file_line_facts)
    then show ?thesis by blast
  qed
  show ?thesis using r l recent_logs_sorted[of s] recent_logs_set[of s] by blast
qed

theorem list_call_logs_recent_ten_witness:
  "fst (list_call_logs one_line_session) = Inl IndexError"
  using list_call_logs_recent_ten[of one_line_session]
  by (simp add: one_line_session_def connect_def new_controller_def py_print_def
      recent_logs_def is_txt_def readlines_def u_def demo_log_def)

lemma full_dir_files: "files full_dir_session = full_dir"
  by (simp add: full_dir_session_def connect_def new_controller_def py_print_def)

text \<open>
  A directory that contains a non-empty log of exactly one line, \<open>old.txt\<close>, older than
  ten other logs: it is not among the ten that are opened, and the listing completes.
\<close>

theorem list_call_logs_old_one_line_counterexample:
  "map_of (files full_dir_session) (u ''old.txt'') = Some (u ''[12:00:00] RING'' @ [10]) \<and>
   is_txt (u ''old.txt'') \<and>
   u ''[12:00:00] RING'' @ [10] \<noteq> [] \<and>
   length (readlines (u ''[12:00:00] RING'' @ [10])) = 1 \<and>
   length (files full_dir_session) = 11 \<and>
   fst (list_call_logs full_dir_session) = Inr ()"
  by (simp add: full_dir_session_def connect_def new_controller_def py_print_def full_dir_def
      full_dir_mtime_def list_call_logs_def recent_logs_def is_txt_def readlines_def u_def
      banner_def type_line_def label_outgoing_def Let_def)


end
